theory Spec2Isabelle
  imports Complex_Main "HOL-Library.Log_Nat"
begin

section \<open>Python floats: IEEE 754 binary64\<close>

text \<open>
  A Python \<^verbatim>\<open>float\<close> is a binary64 number. Its value is kept as the exact real it
  denotes; \<open>fl\<close> rounds an exact real to the nearest binary64 number (ties to the even
  mantissa, overflow to an infinity), which is what every float operation of CPython does
  to its exact result. The sign of zero is not kept: the program never observes it
  (\<^verbatim>\<open>0.0 <= 0\<close> and \<^verbatim>\<open>-0.0 <= 0\<close> are both true, and a fare of zero is
  replaced by the minimum fare).
\<close>

datatype double = Finite real | PosInf | NegInf | NaN

text \<open>Round to the nearest integer, ties to the even one.\<close>

definition rhe :: "real \<Rightarrow> int" where
  "rhe x = (let f = \<lfloor>x\<rfloor>; r = x - of_int f in
     if r < 1/2 then f else if 1/2 < r then f + 1 else if even f then f else f + 1)"

text \<open>The binary exponent of a positive real: \<open>2 powi ilog2 a \<le> a < 2 powi (ilog2 a + 1)\<close>.\<close>

definition ilog2 :: "real \<Rightarrow> int" where
  "ilog2 a = (if 1 \<le> a then bitlen \<lfloor>a\<rfloor> - 1 else - bitlen (\<lceil>1 / a\<rceil> - 1))"

text \<open>The exponent of the binade of \<open>a\<close>; below \<open>2 powi - 1022\<close> the numbers are subnormal.\<close>

definition expo :: "real \<Rightarrow> int" where
  "expo a = max (ilog2 a) (- 1022)"

text \<open>The spacing of binary64 numbers around \<open>a\<close>: 53 bits of mantissa.\<close>

definition ulp_of :: "real \<Rightarrow> real" where
  "ulp_of a = 2 powi (expo a - 52)"

definition nearest :: "real \<Rightarrow> real" where
  "nearest a = of_int (rhe (a / ulp_of a)) * ulp_of a"

definition fl :: "real \<Rightarrow> double" where
  "fl x = (if x = 0 then Finite 0
     else if 0 < x then (if 2 ^ 1024 \<le> nearest x then PosInf else Finite (nearest x))
     else (if 2 ^ 1024 \<le> nearest (- x) then NegInf else Finite (- nearest (- x))))"

text \<open>
  The values that are binary64 numbers: the reals that the rounding leaves as they are,
  the infinities and NaN.
\<close>

definition is_double :: "double \<Rightarrow> bool" where
  "is_double d = (case d of Finite x \<Rightarrow> fl x = Finite x | _ \<Rightarrow> True)"

text \<open>Float multiplication: the exact product, rounded; IEEE rules for the special values.\<close>

fun dmul :: "double \<Rightarrow> double \<Rightarrow> double" where
  "dmul (Finite x) (Finite y) = fl (x * y)"
| "dmul (Finite x) PosInf = (if x = 0 then NaN else if 0 < x then PosInf else NegInf)"
| "dmul (Finite x) NegInf = (if x = 0 then NaN else if 0 < x then NegInf else PosInf)"
| "dmul PosInf (Finite y) = (if y = 0 then NaN else if 0 < y then PosInf else NegInf)"
| "dmul NegInf (Finite y) = (if y = 0 then NaN else if 0 < y then NegInf else PosInf)"
| "dmul PosInf PosInf = PosInf"
| "dmul PosInf NegInf = NegInf"
| "dmul NegInf PosInf = NegInf"
| "dmul NegInf NegInf = PosInf"
| "dmul NaN _ = NaN"
| "dmul _ NaN = NaN"

text \<open>Comparison of floats: every comparison with a NaN is false.\<close>

fun dless :: "double \<Rightarrow> double \<Rightarrow> bool" where
  "dless (Finite x) (Finite y) = (x < y)"
| "dless (Finite x) PosInf = True"
| "dless NegInf (Finite y) = True"
| "dless NegInf PosInf = True"
| "dless _ _ = False"

fun dle :: "double \<Rightarrow> double \<Rightarrow> bool" where
  "dle (Finite x) (Finite y) = (x \<le> y)"
| "dle (Finite x) PosInf = True"
| "dle NegInf (Finite y) = True"
| "dle NegInf PosInf = True"
| "dle PosInf PosInf = True"
| "dle NegInf NegInf = True"
| "dle _ _ = False"

section \<open>Python values\<close>

text \<open>A \<^verbatim>\<open>str\<close> is its sequence of Unicode code points.\<close>

type_synonym pystr = "nat list"

datatype pyval =
    PNone
  | PBool bool
  | PInt int
  | PFloat double
  | PStr pystr
  | PList "pyval list"

datatype pytype = NoneType | BoolT | IntT | FloatT | StrT | ListT

fun type_of :: "pyval \<Rightarrow> pytype" where
  "type_of PNone = NoneType"
| "type_of (PBool _) = BoolT"
| "type_of (PInt _) = IntT"
| "type_of (PFloat _) = FloatT"
| "type_of (PStr _) = StrT"
| "type_of (PList _) = ListT"

text \<open>
  The numbers: \<^verbatim>\<open>isinstance(v, (int, float))\<close> holds exactly when \<open>as_num v\<close> is defined.
  \<^verbatim>\<open>bool\<close> is a subclass of \<^verbatim>\<open>int\<close>: \<^verbatim>\<open>True\<close> is the integer 1.
\<close>

datatype num = NInt int | NFloat double

fun as_int :: "pyval \<Rightarrow> int option" where
  "as_int (PBool b) = Some (if b then 1 else 0)"
| "as_int (PInt n) = Some n"
| "as_int _ = None"

fun as_num :: "pyval \<Rightarrow> num option" where
  "as_num (PBool b) = Some (NInt (if b then 1 else 0))"
| "as_num (PInt n) = Some (NInt n)"
| "as_num (PFloat x) = Some (NFloat x)"
| "as_num _ = None"

text \<open>
  The text of an exception is kept as the message's kind and the values its f-string
  interpolates, not as rendered characters.
\<close>

datatype message =
    DistanceNotNumber pytype
  | DistanceNotPositive pyval
  | UnsupportedTariff pyval "pystr list"
  | RatingNotInteger pytype
  | RatingOutOfRange pystr pyval
  | Unhashable pytype
  | NotANumber pytype
  | IntTooLarge
  | RoundedTooLarge

datatype error =
    TypeError message
  | ValueError message
  | OverflowError message
  | KeyError pyval

text \<open>The specification's two error kinds are Python's TypeError and ValueError.\<close>

datatype kind = TypeKind | RangeKind | OverflowKind | KeyKind

fun kind_of :: "error \<Rightarrow> kind" where
  "kind_of (TypeError _) = TypeKind"
| "kind_of (ValueError _) = RangeKind"
| "kind_of (OverflowError _) = OverflowKind"
| "kind_of (KeyError _) = KeyKind"

text \<open>A statement that raises aborts the rest of the function body.\<close>

fun bind :: "error + 'a \<Rightarrow> ('a \<Rightarrow> error + 'b) \<Rightarrow> error + 'b" where
  "bind (Inl e) f = Inl e"
| "bind (Inr x) f = f x"

section \<open>Python arithmetic on numbers\<close>

text \<open>
  Python compares an \<^verbatim>\<open>int\<close> with a \<^verbatim>\<open>float\<close> by their exact values, without
  converting the integer.
\<close>

fun exact :: "num \<Rightarrow> double" where
  "exact (NInt n) = Finite (of_int n)"
| "exact (NFloat x) = x"

definition num_less :: "num \<Rightarrow> num \<Rightarrow> bool" where
  "num_less a b = dless (exact a) (exact b)"

definition num_le :: "num \<Rightarrow> num \<Rightarrow> bool" where
  "num_le a b = dle (exact a) (exact b)"

definition num_eq :: "num \<Rightarrow> num \<Rightarrow> bool" where
  "num_eq a b = (exact a \<noteq> NaN \<and> exact a = exact b)"

text \<open>
  An \<^verbatim>\<open>int\<close> operand of a float operation is converted first, correctly rounded;
  an integer beyond the range of binary64 raises OverflowError
  (\<^verbatim>\<open>int too large to convert to float\<close>).
\<close>

definition int_to_double :: "int \<Rightarrow> error + double" where
  "int_to_double n = (case fl (of_int n) of
       Finite x \<Rightarrow> Inr (Finite x)
     | _ \<Rightarrow> Inl (OverflowError IntTooLarge))"

fun num_mul :: "num \<Rightarrow> num \<Rightarrow> error + num" where
  "num_mul (NInt a) (NInt b) = Inr (NInt (a * b))"
| "num_mul (NInt a) (NFloat y) = bind (int_to_double a) (\<lambda>x. Inr (NFloat (dmul x y)))"
| "num_mul (NFloat x) (NInt b) = bind (int_to_double b) (\<lambda>y. Inr (NFloat (dmul x y)))"
| "num_mul (NFloat x) (NFloat y) = Inr (NFloat (dmul x y))"

text \<open>
  The operator \<^verbatim>\<open>*\<close> is modelled on numbers. \<open>calculate_fare\<close> applies it to the
  distance only after \<open>validate_distance\<close> has accepted it, so the first branch is not
  reached there.
\<close>

definition py_mul :: "pyval \<Rightarrow> num \<Rightarrow> error + num" where
  "py_mul v b = (case as_num v of
       None \<Rightarrow> Inl (TypeError (NotANumber (type_of v)))
     | Some a \<Rightarrow> num_mul a b)"

text \<open>\<^verbatim>\<open>max(a, b)\<close> keeps its first argument unless the second is greater.\<close>

definition py_max :: "num \<Rightarrow> num \<Rightarrow> num" where
  "py_max a b = (if num_less a b then b else a)"

text \<open>
  \<^verbatim>\<open>round(x, ndigits)\<close> for \<open>ndigits \<ge> 0\<close>. An \<^verbatim>\<open>int\<close> is returned as it is. A
  finite float is rounded, from its exact value, to the nearest decimal with
  \<open>ndigits\<close> digits after the point (ties to the even digit), and that decimal is
  converted back to the nearest float; infinities and NaN round to themselves.
\<close>

fun py_round :: "num \<Rightarrow> nat \<Rightarrow> error + num" where
  "py_round (NInt n) ndigits = Inr (NInt n)"
| "py_round (NFloat (Finite x)) ndigits =
     (case fl (of_int (rhe (x * 10 ^ ndigits)) / 10 ^ ndigits) of
        Finite y \<Rightarrow> Inr (NFloat (Finite y))
      | _ \<Rightarrow> Inl (OverflowError RoundedTooLarge))"
| "py_round (NFloat d) ndigits = Inr (NFloat d)"

section \<open>Dictionaries\<close>

text \<open>
  The dictionaries of the class are association lists in insertion order. A list is
  unhashable; every other value of the model is hashable. A string key is equal only
  to the same string; an integer key is equal to every number of the same value.
\<close>

fun hashable :: "pyval \<Rightarrow> bool" where
  "hashable (PList _) = False"
| "hashable _ = True"

fun str_key :: "pyval \<Rightarrow> pystr option" where
  "str_key (PStr s) = Some s"
| "str_key _ = None"

fun int_key :: "pyval \<Rightarrow> int option" where
  "int_key (PBool b) = Some (if b then 1 else 0)"
| "int_key (PInt n) = Some n"
| "int_key (PFloat (Finite x)) = (if x = of_int \<lfloor>x\<rfloor> then Some \<lfloor>x\<rfloor> else None)"
| "int_key _ = None"

definition getitem_str :: "(pystr \<times> 'v) list \<Rightarrow> pyval \<Rightarrow> error + 'v" where
  "getitem_str d k =
     (if \<not> hashable k then Inl (TypeError (Unhashable (type_of k)))
      else case str_key k of
          None \<Rightarrow> Inl (KeyError k)
        | Some s \<Rightarrow> (case map_of d s of None \<Rightarrow> Inl (KeyError k) | Some v \<Rightarrow> Inr v))"

definition getitem_int :: "(int \<times> 'v) list \<Rightarrow> pyval \<Rightarrow> error + 'v" where
  "getitem_int d k =
     (if \<not> hashable k then Inl (TypeError (Unhashable (type_of k)))
      else case int_key k of
          None \<Rightarrow> Inl (KeyError k)
        | Some n \<Rightarrow> (case map_of d n of None \<Rightarrow> Inl (KeyError k) | Some v \<Rightarrow> Inr v))"

text \<open>\<^verbatim>\<open>k in d\<close> for a dictionary with string keys.\<close>

definition contains_str :: "(pystr \<times> 'v) list \<Rightarrow> pyval \<Rightarrow> error + bool" where
  "contains_str d k =
     (if \<not> hashable k then Inl (TypeError (Unhashable (type_of k)))
      else case str_key k of
          None \<Rightarrow> Inr False
        | Some s \<Rightarrow> Inr (s \<in> set (map fst d)))"

section \<open>The class TaxiCalculator\<close>

record taxi_calculator =
  TARIFF_RATES :: "(pystr \<times> int) list"
  MIN_FARE :: int
  TRAFFIC_MULTIPLIERS :: "(int \<times> double) list"
  WEATHER_MULTIPLIERS :: "(int \<times> double) list"
  OVERLOAD_MULTIPLIERS :: "(int \<times> double) list"

text \<open>
  The four tariff names of the source, Cyrillic words, as code points; the constants
  carry their transliterations.
\<close>

definition econom :: pystr where
  "econom = [1101, 1082, 1086, 1085, 1086, 1084]"

definition comfort :: pystr where
  "comfort = [1082, 1086, 1084, 1092, 1086, 1088, 1090]"

definition comfort_plus :: pystr where
  "comfort_plus = [1082, 1086, 1084, 1092, 1086, 1088, 1090, 95, 1087, 1083, 1102, 1089]"

definition business :: pystr where
  "business = [1073, 1080, 1079, 1085, 1077, 1089]"

text \<open>The labels that \<open>calculate_fare\<close> passes to \<open>validate_rating\<close>.\<close>

definition label_traffic :: pystr where
  "label_traffic = [1087, 1088, 1086, 1073, 1086, 1082]"

definition label_weather :: pystr where
  "label_weather = [1085, 1077, 1087, 1086, 1075, 1086, 1076, 1099]"

definition label_overload :: pystr where
  "label_overload = [1089, 1087, 1088, 1086, 1089, 1072]"

text \<open>
  The class attributes. A float literal such as \<^verbatim>\<open>1.1\<close> denotes the binary64 number
  nearest to the decimal.
\<close>

definition TaxiCalculator :: taxi_calculator where
  "TaxiCalculator = \<lparr>
     TARIFF_RATES = [(econom, 100), (comfort, 150), (comfort_plus, 200), (business, 300)],
     MIN_FARE = 50,
     TRAFFIC_MULTIPLIERS =
       [(1, fl 1), (2, fl (11/10)), (3, fl (5/4)), (4, fl (3/2)), (5, fl 2)],
     WEATHER_MULTIPLIERS =
       [(1, fl 1), (2, fl (21/20)), (3, fl (23/20)), (4, fl (13/10)), (5, fl (3/2))],
     OVERLOAD_MULTIPLIERS =
       [(1, fl 1), (2, fl (11/10)), (3, fl (5/4)), (4, fl (3/2)), (5, fl 2)] \<rparr>"

definition validate_distance :: "pyval \<Rightarrow> error + unit" where
  "validate_distance distance =
     (case as_num distance of
        None \<Rightarrow> Inl (TypeError (DistanceNotNumber (type_of distance)))
      | Some d \<Rightarrow>
          if num_le d (NInt 0) then Inl (ValueError (DistanceNotPositive distance))
          else Inr ())"

definition validate_tariff :: "taxi_calculator \<Rightarrow> pyval \<Rightarrow> error + unit" where
  "validate_tariff self tariff =
     bind (contains_str (TARIFF_RATES self) tariff) (\<lambda>found.
       if \<not> found
       then Inl (ValueError (UnsupportedTariff tariff (map fst (TARIFF_RATES self))))
       else Inr ())"

definition validate_rating :: "pyval \<Rightarrow> pystr \<Rightarrow> error + unit" where
  "validate_rating rating rating_type =
     (case as_int rating of
        None \<Rightarrow> Inl (TypeError (RatingNotInteger (type_of rating)))
      | Some r \<Rightarrow>
          if \<not> (1 \<le> r \<and> r \<le> 5) then Inl (ValueError (RatingOutOfRange rating_type rating))
          else Inr ())"

text \<open>
  The body of \<open>calculate_fare\<close> after the five validations: the base fare, the three
  multipliers, the minimum fare and the rounding.
\<close>

definition compute_fare ::
  "taxi_calculator \<Rightarrow> pyval \<Rightarrow> pyval \<Rightarrow> pyval \<Rightarrow> pyval \<Rightarrow> pyval \<Rightarrow> error + num" where
  "compute_fare self distance tariff traffic_rating weather_rating overload_rating =
     bind (getitem_str (TARIFF_RATES self) tariff) (\<lambda>base_rate.
     bind (py_mul distance (NInt base_rate)) (\<lambda>base_fare.
     bind (getitem_int (TRAFFIC_MULTIPLIERS self) traffic_rating) (\<lambda>traffic_multiplier.
     bind (getitem_int (WEATHER_MULTIPLIERS self) weather_rating) (\<lambda>weather_multiplier.
     bind (getitem_int (OVERLOAD_MULTIPLIERS self) overload_rating) (\<lambda>overload_multiplier.
     let total_multiplier =
           dmul (dmul traffic_multiplier weather_multiplier) overload_multiplier in
     bind (num_mul base_fare (NFloat total_multiplier)) (\<lambda>fare.
     let fare = py_max fare (NInt (MIN_FARE self)) in
     py_round fare 2))))))"

text \<open>
  \<open>calculate_fare\<close>, with the three labels it passes to \<open>validate_rating\<close> as
  parameters: the five validations in the order of the source, then the computation.
\<close>

definition fare_with_labels ::
  "pystr \<Rightarrow> pystr \<Rightarrow> pystr \<Rightarrow> taxi_calculator \<Rightarrow>
   pyval \<Rightarrow> pyval \<Rightarrow> pyval \<Rightarrow> pyval \<Rightarrow> pyval \<Rightarrow> error + num" where
  "fare_with_labels l1 l2 l3 self distance tariff traffic_rating weather_rating overload_rating =
     bind (validate_distance distance) (\<lambda>_.
     bind (validate_tariff self tariff) (\<lambda>_.
     bind (validate_rating traffic_rating l1) (\<lambda>_.
     bind (validate_rating weather_rating l2) (\<lambda>_.
     bind (validate_rating overload_rating l3) (\<lambda>_.
     compute_fare self distance tariff traffic_rating weather_rating overload_rating)))))"

definition calculate_fare ::
  "taxi_calculator \<Rightarrow> pyval \<Rightarrow> pyval \<Rightarrow> pyval \<Rightarrow> pyval \<Rightarrow> pyval \<Rightarrow> error + num" where
  "calculate_fare = fare_with_labels label_traffic label_weather label_overload"

text \<open>The call with the three ratings left at their default value 1.\<close>

definition calculate_fare_default :: "taxi_calculator \<Rightarrow> pyval \<Rightarrow> pyval \<Rightarrow> error + num" where
  "calculate_fare_default self distance tariff =
     calculate_fare self distance tariff (PInt 1) (PInt 1) (PInt 1)"

section \<open>Shared objects\<close>












section \<open>The checks as the specification words them\<close>

text \<open>The first exception in a sequence of statements, if any of them raises.\<close>

fun first_error :: "(error + unit) list \<Rightarrow> error option" where
  "first_error [] = None"
| "first_error (Inl e # rs) = Some e"
| "first_error (Inr _ # rs) = first_error rs"

text \<open>An exception without the label that \<open>validate_rating\<close> puts into its text.\<close>

fun strip_label :: "error \<Rightarrow> error" where
  "strip_label (ValueError (RatingOutOfRange l v)) = ValueError (RatingOutOfRange [] v)"
| "strip_label e = e"

text \<open>
  The conditions of the specification's error property: a value is a number, is not
  positive, names a tariff of the catalog, is an integer, lies in the range 1 to 5.
\<close>

definition is_number :: "pyval \<Rightarrow> bool" where
  "is_number v = (as_num v \<noteq> None)"

definition not_positive :: "pyval \<Rightarrow> bool" where
  "not_positive v = (case as_num v of None \<Rightarrow> False | Some n \<Rightarrow> num_le n (NInt 0))"

definition positive :: "pyval \<Rightarrow> bool" where
  "positive v = (case as_num v of None \<Rightarrow> False | Some n \<Rightarrow> num_less (NInt 0) n)"

definition in_catalog :: "taxi_calculator \<Rightarrow> pyval \<Rightarrow> bool" where
  "in_catalog self t =
     (case t of PStr s \<Rightarrow> s \<in> set (map fst (TARIFF_RATES self)) | _ \<Rightarrow> False)"

definition is_integer :: "pyval \<Rightarrow> bool" where
  "is_integer v = (as_int v \<noteq> None)"

definition in_range :: "pyval \<Rightarrow> bool" where
  "in_range v = (case as_int v of None \<Rightarrow> False | Some k \<Rightarrow> 1 \<le> k \<and> k \<le> 5)"

text \<open>The kind of error of the first violated check, in the order of the validations.\<close>

definition rating_violation :: "pyval \<Rightarrow> kind option" where
  "rating_violation r =
     (if \<not> is_integer r then Some TypeKind
      else if \<not> in_range r then Some RangeKind
      else None)"

definition first_violation ::
  "taxi_calculator \<Rightarrow> pyval \<Rightarrow> pyval \<Rightarrow> pyval \<Rightarrow> pyval \<Rightarrow> pyval \<Rightarrow> kind option" where
  "first_violation self distance tariff traffic_rating weather_rating overload_rating =
     (if \<not> is_number distance then Some TypeKind
      else if not_positive distance then Some RangeKind
      else if \<not> hashable tariff then Some TypeKind
      else if \<not> in_catalog self tariff then Some RangeKind
      else case rating_violation traffic_rating of Some k \<Rightarrow> Some k | None \<Rightarrow>
          (case rating_violation weather_rating of Some k \<Rightarrow> Some k | None \<Rightarrow>
             rating_violation overload_rating))"

text \<open>
  The base fare of an integer distance is an integer; it is too large when its
  conversion to a float overflows, that is from \<open>2 ^ 1024 - 2 ^ 970\<close> on.
\<close>

definition base_fare_too_large :: "taxi_calculator \<Rightarrow> pyval \<Rightarrow> pyval \<Rightarrow> bool" where
  "base_fare_too_large self distance tariff =
     (case as_int distance of
        None \<Rightarrow> False
      | Some n \<Rightarrow>
          (case getitem_str (TARIFF_RATES self) tariff of
             Inl _ \<Rightarrow> False
           | Inr rate \<Rightarrow> 2 ^ 1024 - 2 ^ 970 \<le> n * rate))"

text \<open>The conversion of a number to a float, as a float operation applies it.\<close>

fun to_float :: "num \<Rightarrow> error + double" where
  "to_float (NInt n) = int_to_double n"
| "to_float (NFloat x) = Inr x"

text \<open>The decimal numbers that the float literals of the multiplier tables are written as.\<close>

definition traffic_decimal :: "int \<Rightarrow> real" where
  "traffic_decimal k =
     (if k = 1 then 1 else if k = 2 then 11/10 else if k = 3 then 5/4
      else if k = 4 then 3/2 else 2)"

definition weather_decimal :: "int \<Rightarrow> real" where
  "weather_decimal k =
     (if k = 1 then 1 else if k = 2 then 21/20 else if k = 3 then 23/20
      else if k = 4 then 13/10 else 3/2)"

section \<open>The catalog\<close>

lemma tariff_names_distinct: "distinct [econom, comfort, comfort_plus, business]"
  by (simp add: econom_def comfort_def comfort_plus_def business_def)

section \<open>Properties of the rounding to binary64\<close>

lemma rhe_of_int: "rhe (of_int n) = n"
  by (simp add: rhe_def)

lemma rhe_mono: "x \<le> y \<Longrightarrow> rhe x \<le> rhe y"
proof -
  assume xy: "x \<le> y"
  have fxy: "\<lfloor>x\<rfloor> \<le> \<lfloor>y\<rfloor>" using xy by (rule floor_mono)
  have lo: "\<And>z. \<lfloor>z\<rfloor> \<le> rhe z" by (simp add: rhe_def Let_def)
  have hi: "\<And>z. rhe z \<le> \<lfloor>z\<rfloor> + 1" by (simp add: rhe_def Let_def)
  show ?thesis
  proof (cases "\<lfloor>x\<rfloor> = \<lfloor>y\<rfloor>")
    case True
    with xy show ?thesis by (auto simp: rhe_def Let_def)
  next
    case False
    with fxy have "\<lfloor>x\<rfloor> + 1 \<le> \<lfloor>y\<rfloor>" by simp
    with lo[of y] hi[of x] show ?thesis by linarith
  qed
qed

lemma ilog2_lower: assumes "0 < a" shows "2 powi (ilog2 a) \<le> a"
proof (cases "1 \<le> a")
  case True
  let ?n = "\<lfloor>a\<rfloor>"
  from True have n: "0 < ?n" by simp
  from bitlen_bounds[OF n] have b: "2 ^ nat (bitlen ?n - 1) \<le> ?n" by simp
  have "1 \<le> bitlen ?n" using n by (auto simp: bitlen_alt_def)
  then have "(2::real) powi (bitlen ?n - 1) = 2 ^ nat (bitlen ?n - 1)"
    by (simp add: power_int_def)
  also have "\<dots> = of_int (2 ^ nat (bitlen ?n - 1))" by simp
  also have "\<dots> \<le> of_int ?n" using b by (simp only: of_int_le_iff)
  also have "\<dots> \<le> a" by simp
  finally show ?thesis using True by (simp add: ilog2_def)
next
  case False
  let ?m = "\<lceil>1 / a\<rceil> - 1"
  from False assms have "1 < 1 / a" by simp
  then have m: "0 < ?m" by linarith
  let ?k = "bitlen ?m"
  from bitlen_bounds[OF m] have b: "?m < 2 ^ nat ?k" by simp
  then have "?m + 1 \<le> 2 ^ nat ?k" by simp
  then have "of_int (?m + 1) \<le> (of_int (2 ^ nat ?k) :: real)" by (simp only: of_int_le_iff)
  then have "of_int \<lceil>1 / a\<rceil> \<le> (2::real) ^ nat ?k" by simp
  moreover have "1 / a \<le> of_int \<lceil>1 / a\<rceil>" by simp
  ultimately have "1 / a \<le> 2 ^ nat ?k" by linarith
  then have "1 / 2 ^ nat ?k \<le> a" using assms
    by (simp add: field_simps)
  moreover have "(2::real) powi (- ?k) = 1 / 2 ^ nat ?k"
    using bitlen_nonneg[of ?m] by (simp add: power_int_def field_simps)
  ultimately show ?thesis using False by (simp add: ilog2_def)
qed

lemma ilog2_upper: assumes "0 < a" shows "a < 2 powi (ilog2 a + 1)"
proof (cases "1 \<le> a")
  case True
  let ?n = "\<lfloor>a\<rfloor>"
  from True have n: "0 < ?n" by simp
  from bitlen_bounds[OF n] have b: "?n < 2 ^ nat (bitlen ?n)" by simp
  then have "?n + 1 \<le> 2 ^ nat (bitlen ?n)" by simp
  then have "of_int (?n + 1) \<le> (of_int (2 ^ nat (bitlen ?n)) :: real)" by (simp only: of_int_le_iff)
  then have "of_int ?n + 1 \<le> (2::real) ^ nat (bitlen ?n)" by simp
  moreover have "a < of_int ?n + 1" by linarith
  ultimately have "a < 2 ^ nat (bitlen ?n)" by linarith
  moreover have "(2::real) powi (bitlen ?n) = 2 ^ nat (bitlen ?n)"
    using bitlen_nonneg[of ?n] by (simp add: power_int_def)
  ultimately show ?thesis using True by (simp add: ilog2_def)
next
  case False
  let ?m = "\<lceil>1 / a\<rceil> - 1"
  from False assms have "1 < 1 / a" by simp
  then have m: "0 < ?m" by linarith
  let ?k = "bitlen ?m"
  have k1: "1 \<le> ?k" using m by (auto simp: bitlen_alt_def)
  from bitlen_bounds[OF m] have b: "2 ^ nat (?k - 1) \<le> ?m" by simp
  then have "(of_int (2 ^ nat (?k - 1)) :: real) \<le> of_int ?m" by (simp only: of_int_le_iff)
  then have "(2::real) ^ nat (?k - 1) \<le> of_int \<lceil>1 / a\<rceil> - 1" by simp
  moreover have "of_int \<lceil>1 / a\<rceil> - 1 < 1 / a" by linarith
  ultimately have "2 ^ nat (?k - 1) < 1 / a" by linarith
  then have "a < 1 / 2 ^ nat (?k - 1)" using assms
    by (simp add: field_simps)
  moreover have "(2::real) powi (- ?k + 1) = 1 / 2 ^ nat (?k - 1)"
  proof (cases "?k = 1")
    case True then show ?thesis by simp
  next
    case False
    with k1 have "- ?k + 1 < 0" by simp
    then show ?thesis by (simp add: power_int_def field_simps)
  qed
  ultimately show ?thesis using False by (simp add: ilog2_def)
qed

lemma ilog2_unique:
  assumes "0 < a" "2 powi e \<le> a" "a < 2 powi (e + 1)"
  shows "ilog2 a = e"
proof -
  have "(2::real) powi (ilog2 a) < 2 powi (e + 1)"
    using ilog2_lower[OF assms(1)] assms(3) by linarith
  then have 1: "ilog2 a < e + 1"
    using power_int_increasing[of "e + 1" "ilog2 a" "2::real"] by (cases "ilog2 a < e + 1") auto
  have "(2::real) powi e < 2 powi (ilog2 a + 1)"
    using ilog2_upper[OF assms(1)] assms(2) by linarith
  then have 2: "e < ilog2 a + 1"
    using power_int_increasing[of "ilog2 a + 1" e "2::real"] by (cases "e < ilog2 a + 1") auto
  from 1 2 show ?thesis by simp
qed

lemma ilog2_mono: assumes "0 < a" "a \<le> b" shows "ilog2 a \<le> ilog2 b"
proof -
  have "(2::real) powi (ilog2 a) < 2 powi (ilog2 b + 1)"
    using ilog2_lower[OF assms(1)] ilog2_upper[of b] assms by linarith
  then have "ilog2 a < ilog2 b + 1"
    using power_int_increasing[of "ilog2 b + 1" "ilog2 a" "2::real"]
    by (cases "ilog2 a < ilog2 b + 1") auto
  then show ?thesis by simp
qed

lemma ulp_pos: "0 < ulp_of a"
  by (simp add: ulp_of_def)

lemma rhe_ge: "of_int m \<le> x \<Longrightarrow> m \<le> rhe x"
  using rhe_mono[of "of_int m" x] by (simp add: rhe_of_int)

lemma rhe_le: "x \<le> of_int m \<Longrightarrow> rhe x \<le> m"
  using rhe_mono[of x "of_int m"] by (simp add: rhe_of_int)

lemma expo_mono: "0 < a \<Longrightarrow> a \<le> b \<Longrightarrow> expo a \<le> expo b"
  using ilog2_mono[of a b] by (simp add: expo_def)

lemma expo_upper: assumes "0 < a" shows "a < 2 powi (expo a + 1)"
proof -
  have "(2::real) powi (ilog2 a + 1) \<le> 2 powi (expo a + 1)"
    by (rule power_int_increasing) (simp_all add: expo_def)
  with ilog2_upper[OF assms] show ?thesis by linarith
qed

lemma expo_lower: "0 < a \<Longrightarrow> - 1022 < expo a \<Longrightarrow> 2 powi (expo a) \<le> a"
  using ilog2_lower[of a] by (simp add: expo_def max_def split: if_splits)

lemma pow2_split: "(2::real) powi e = 2 powi (e - 52) * 2 ^ 52"
proof -
  have "(2::real) powi ((e - 52) + 52) = 2 powi (e - 52) * 2 powi 52"
    by (rule power_int_add) simp
  then show ?thesis by simp
qed

lemma nearest_upper: assumes "0 < a" shows "nearest a \<le> 2 powi (expo a + 1)"
proof -
  let ?u = "ulp_of a"
  have u: "0 < ?u" by (rule ulp_pos)
  have "(2::real) powi ((expo a - 52) + 53) = 2 powi (expo a - 52) * 2 powi 53"
    by (rule power_int_add) simp
  moreover have "(expo a - 52) + 53 = expo a + 1" by simp
  ultimately have p: "(2::real) powi (expo a + 1) = ?u * 2 ^ 53"
    by (simp add: ulp_of_def)
  have "a / ?u \<le> 2 ^ 53"
    using expo_upper[OF assms] u p by (simp add: field_simps)
  then have "a / ?u \<le> of_int (2 ^ 53)" by simp
  then have "rhe (a / ?u) \<le> 2 ^ 53" by (rule rhe_le)
  then have "(of_int (rhe (a / ?u)) :: real) \<le> of_int (2 ^ 53)" by (simp only: of_int_le_iff)
  then have "of_int (rhe (a / ?u)) * ?u \<le> 2 ^ 53 * ?u"
    using u by simp
  with p show ?thesis by (simp add: nearest_def field_simps)
qed

lemma nearest_lower: assumes "0 < a" "2 powi (expo a) \<le> a" shows "2 powi (expo a) \<le> nearest a"
proof -
  let ?u = "ulp_of a"
  have u: "0 < ?u" by (rule ulp_pos)
  have p: "(2::real) powi (expo a) = ?u * 2 ^ 52"
    using pow2_split[of "expo a"] by (simp add: ulp_of_def field_simps)
  have "2 ^ 52 \<le> a / ?u"
    using assms(2) u p by (simp add: field_simps)
  then have "of_int (2 ^ 52) \<le> a / ?u" by simp
  then have "2 ^ 52 \<le> rhe (a / ?u)" by (rule rhe_ge)
  then have "(of_int (2 ^ 52) :: real) \<le> of_int (rhe (a / ?u))" by (simp only: of_int_le_iff)
  then have "2 ^ 52 * ?u \<le> of_int (rhe (a / ?u)) * ?u"
    using u by simp
  with p show ?thesis by (simp add: nearest_def field_simps)
qed

lemma nearest_nonneg: "0 \<le> a \<Longrightarrow> 0 \<le> nearest a"
proof -
  assume "0 \<le> a"
  then have "of_int 0 \<le> a / ulp_of a" using ulp_pos[of a] by simp
  then have "0 \<le> rhe (a / ulp_of a)" by (rule rhe_ge)
  then show ?thesis using ulp_pos[of a] by (simp add: nearest_def)
qed

lemma nearest_mono: assumes "0 < a" "a \<le> b" shows "nearest a \<le> nearest b"
proof (cases "expo a = expo b")
  case True
  then have u: "ulp_of a = ulp_of b" by (simp add: ulp_of_def)
  have "a / ulp_of b \<le> b / ulp_of b"
    using assms(2) ulp_pos[of b] by (simp add: divide_right_mono)
  then have "rhe (a / ulp_of b) \<le> rhe (b / ulp_of b)" by (rule rhe_mono)
  then have "(of_int (rhe (a / ulp_of b)) :: real) \<le> of_int (rhe (b / ulp_of b))"
    by (simp only: of_int_le_iff)
  then show ?thesis using ulp_pos[of b] u by (simp add: nearest_def)
next
  case False
  with expo_mono[OF assms] have lt: "expo a + 1 \<le> expo b" by simp
  have b0: "0 < b" using assms by linarith
  have "- 1022 \<le> expo a" by (simp add: expo_def)
  with lt have "- 1022 < expo b" by linarith
  then have "2 powi (expo b) \<le> b" using b0 by (rule expo_lower[rotated])
  then have "2 powi (expo b) \<le> nearest b" using b0 by (rule nearest_lower[rotated])
  moreover have "(2::real) powi (expo a + 1) \<le> 2 powi (expo b)"
    using lt by (rule power_int_increasing) simp
  ultimately show ?thesis using nearest_upper[OF assms(1)] by linarith
qed

lemma nearest_fixed: "a = of_int m * ulp_of a \<Longrightarrow> nearest a = a"
proof -
  assume a: "a = of_int m * ulp_of a"
  have "a / ulp_of a = of_int m"
    using ulp_pos[of a] by (subst a) simp
  then show ?thesis using a by (simp add: nearest_def rhe_of_int)
qed

lemma expo_eqI:
  assumes "0 < y" "y < 2 powi (e + 1)" "- 1022 < e \<longrightarrow> 2 powi e \<le> y" "- 1022 \<le> e"
  shows "expo y = e"
proof (cases "- 1022 < e")
  case True
  with assms have "ilog2 y = e" by (intro ilog2_unique) auto
  with True show ?thesis by (simp add: expo_def)
next
  case False
  with assms(4) have e: "e = - 1022" by simp
  have "(2::real) powi (ilog2 y) < 2 powi (e + 1)"
    using ilog2_lower[OF assms(1)] assms(2) by linarith
  then have "ilog2 y < e + 1"
    using power_int_increasing[of "e + 1" "ilog2 y" "2::real"] by (cases "ilog2 y < e + 1") auto
  with e show ?thesis by (simp add: expo_def)
qed

lemma nearest_idem: assumes "0 < a" shows "nearest (nearest a) = nearest a"
proof (cases "nearest a = 0")
  case True
  have "nearest 0 = 0" by (simp add: nearest_def rhe_def)
  with True show ?thesis by simp
next
  case False
  let ?y = "nearest a"
  let ?e = "expo a"
  from False nearest_nonneg[of a] assms have y0: "0 < ?y" by simp
  have lo: "- 1022 \<le> ?e" by (simp add: expo_def)
  show ?thesis
  proof (cases "?y < 2 powi (?e + 1)")
    case True
    have "- 1022 < ?e \<longrightarrow> 2 powi ?e \<le> ?y"
      using expo_lower[OF assms] nearest_lower[OF assms] by blast
    with y0 True lo have "expo ?y = ?e" by (intro expo_eqI) auto
    then have "ulp_of ?y = ulp_of a" by (simp add: ulp_of_def)
    then have "?y = of_int (rhe (a / ulp_of a)) * ulp_of ?y" by (simp add: nearest_def)
    then show ?thesis by (rule nearest_fixed)
  next
    case False
    with nearest_upper[OF assms] have y: "?y = 2 powi (?e + 1)" by linarith
    have "(2::real) powi (?e + 1) < 2 powi (?e + 1 + 1)"
      by (rule power_int_strict_increasing) simp_all
    with y y0 lo have "expo ?y = ?e + 1" by (intro expo_eqI) auto
    then have "ulp_of ?y = 2 powi (?e + 1 - 52)" by (simp add: ulp_of_def)
    with y pow2_split[of "?e + 1"] have "?y = of_int (2 ^ 52) * ulp_of ?y" by simp
    then show ?thesis by (rule nearest_fixed)
  qed
qed

lemma fl_pos: "0 < x \<Longrightarrow> fl x = (if 2 ^ 1024 \<le> nearest x then PosInf else Finite (nearest x))"
  by (simp add: fl_def)

lemma fl_idem: assumes "fl x = Finite y" shows "fl y = Finite y"
proof -
  have pos: "fl y = Finite y" if "0 < x" "fl x = Finite y" for x y
  proof -
    from that have y: "y = nearest x" "\<not> 2 ^ 1024 \<le> nearest x"
      by (auto simp: fl_pos split: if_splits)
    show ?thesis
    proof (cases "y = 0")
      case True then show ?thesis by (simp add: fl_def)
    next
      case False
      with y nearest_nonneg[of x] that have "0 < y" by simp
      then show ?thesis using y nearest_idem[OF that(1)] by (simp add: fl_pos)
    qed
  qed
  consider "x = 0" | "0 < x" | "x < 0" by linarith
  then show ?thesis
  proof cases
    case 1 with assms show ?thesis by (simp add: fl_def)
  next
    case 2 show ?thesis by (rule pos[OF 2 assms])
  next
    case 3
    with assms have y: "y = - nearest (- x)" "\<not> 2 ^ 1024 \<le> nearest (- x)"
      by (auto simp: fl_def split: if_splits)
    from 3 y have "fl (- x) = Finite (- y)" by (simp add: fl_pos)
    with 3 have p: "fl (- y) = Finite (- y)" by (intro pos[of "- x"]) auto
    show ?thesis
    proof (cases "y = 0")
      case True then show ?thesis by (simp add: fl_def)
    next
      case False
      with y nearest_nonneg[of "- x"] 3 have "y < 0" by simp
      with p show ?thesis by (auto simp: fl_def split: if_splits)
    qed
  qed
qed

lemma fl_eval:
  assumes "2 powi e \<le> x" "x < 2 powi (e + 1)" "- 1022 \<le> e"
    and "of_int (rhe (x / 2 powi (e - 52))) * 2 powi (e - 52) = y" "y < 2 ^ 1024"
  shows "fl x = Finite y"
proof -
  have x0: "0 < x" using assms(1) zero_less_power_int[of "2::real" e] by linarith
  have "expo x = e" using x0 assms(1-3) by (intro expo_eqI) auto
  then have "nearest x = y" using assms(4) by (simp add: nearest_def ulp_of_def)
  with x0 assms(5) show ?thesis by (simp add: fl_pos)
qed

lemma fl_mono_pos: assumes "0 < x" "x \<le> y" shows "dle (fl x) (fl y)"
proof -
  have y: "0 < y" using assms by linarith
  from nearest_mono[OF assms] show ?thesis
    using assms(1) y by (auto simp: fl_pos)
qed

lemma rhe_lt_half: assumes "x < of_int k + 1/2" shows "rhe x \<le> k"
proof -
  have "\<lfloor>x\<rfloor> \<le> k" using assms by linarith
  then show ?thesis using assms by (auto simp: rhe_def Let_def)
qed

lemma fl_int: assumes "0 < n" "n \<le> 2 ^ 53" shows "fl (of_int n) = Finite (of_int n)"
proof -
  let ?x = "real_of_int n"
  have x1: "1 \<le> ?x" using assms(1) by simp
  then have x0: "0 < ?x" by linarith
  have xle: "?x \<le> 2 ^ 53" using assms(2) by (metis of_int_le_iff of_int_numeral of_int_power)
  have il0: "0 \<le> ilog2 ?x"
    using ilog2_mono[of 1 ?x] x1 ilog2_unique[of 1 0] by simp
  then have e: "expo ?x = ilog2 ?x" by (simp add: expo_def)
  have "(2::real) powi (ilog2 ?x) < 2 powi 54"
    using ilog2_lower[OF x0] xle by simp
  then have "ilog2 ?x < 54"
    using power_int_increasing[of 54 "ilog2 ?x" "2::real"] by (cases "ilog2 ?x < 54") auto
  then have e53: "expo ?x \<le> 53" using e by simp
  have fixed: "nearest ?x = ?x"
  proof (cases "expo ?x \<le> 52")
    case True
    let ?k = "nat (52 - expo ?x)"
    have u: "ulp_of ?x = 1 / 2 ^ ?k"
    proof (cases "expo ?x = 52")
      case True then show ?thesis by (simp add: ulp_of_def)
    next
      case False
      with True have "expo ?x - 52 < 0" by simp
      then show ?thesis by (simp add: ulp_of_def power_int_def field_simps)
    qed
    have "?x = of_int (n * 2 ^ ?k) * ulp_of ?x" by (simp add: u)
    then show ?thesis by (rule nearest_fixed)
  next
    case False
    with e53 have e: "expo ?x = 53" by simp
    then have lo: "2 powi 53 \<le> ?x" using expo_lower[OF x0] by simp
    with xle have x: "?x = 2 ^ 53" by simp
    have "ulp_of ?x = 2" using e by (simp add: ulp_of_def)
    then have "?x = of_int (2 ^ 52) * ulp_of ?x" using x by simp
    then show ?thesis by (rule nearest_fixed)
  qed
  have "?x < 2 ^ 1024"
  proof -
    have "(2::real) ^ 53 < 2 ^ 1024" by (rule power_strict_increasing) simp_all
    with xle show ?thesis by linarith
  qed
  with fixed x0 show ?thesis by (simp add: fl_pos)
qed

lemma expo_big: "expo (2 ^ 1024) = 1024"
proof (rule expo_eqI)
  show "(2::real) ^ 1024 < 2 powi (1024 + 1)"
  proof -
    have "(2::real) ^ 1024 < 2 ^ 1025" by (rule power_strict_increasing) simp_all
    then show ?thesis by simp
  qed
qed simp_all

lemma fl_overflow: assumes "2 ^ 1024 \<le> x" shows "fl x = PosInf"
proof -
  have p: "(0::real) < 2 ^ 1024" by simp
  have x0: "0 < x" using assms p by linarith
  have "2 powi (expo (2 ^ 1024)) \<le> nearest (2 ^ 1024)"
    by (rule nearest_lower) (unfold expo_big, simp_all)
  then have "2 ^ 1024 \<le> nearest (2 ^ 1024)" unfolding expo_big by simp
  also have "\<dots> \<le> nearest x" using p assms by (rule nearest_mono)
  finally show ?thesis using x0 by (simp add: fl_pos)
qed

lemma fl_finite_below: assumes "0 < x" "x \<le> 2 ^ 1023" shows "\<exists>y. fl x = Finite y \<and> 0 \<le> y \<and> y \<le> 2 ^ 1023"
proof -
  have e: "expo (2 ^ 1023) = 1023"
  proof (rule expo_eqI)
    show "(2::real) ^ 1023 < 2 powi (1023 + 1)"
    proof -
      have "(2::real) ^ 1023 < 2 ^ 1024" by (rule power_strict_increasing) simp_all
      then show ?thesis by simp
    qed
  qed simp_all
  then have "ulp_of (2 ^ 1023) = 2 powi 971" by (simp add: ulp_of_def)
  then have "(2::real) ^ 1023 = of_int (2 ^ 52) * ulp_of (2 ^ 1023)"
    using pow2_split[of 1023] by simp
  then have "nearest (2 ^ 1023) = 2 ^ 1023" by (rule nearest_fixed)
  with nearest_mono[OF assms] have le: "nearest x \<le> 2 ^ 1023" by simp
  have "(2::real) ^ 1023 < 2 ^ 1024" by (rule power_strict_increasing) simp_all
  with le have "\<not> 2 ^ 1024 \<le> nearest x" by linarith
  then show ?thesis using assms(1) le nearest_nonneg[of x] by (simp add: fl_pos)
qed

lemma fl_zero: "fl 0 = Finite 0"
  by (simp add: fl_def)

lemma fl_mono_nonneg: assumes "0 \<le> x" "x \<le> y" shows "dle (fl x) (fl y)"
proof (cases "x = 0")
  case True
  show ?thesis
  proof (cases "y = 0")
    case True with \<open>x = 0\<close> show ?thesis by (simp add: fl_zero)
  next
    case False
    with assms True have "0 < y" by simp
    then show ?thesis using True nearest_nonneg[of y] by (simp add: fl_zero fl_pos)
  qed
next
  case False
  with assms have "0 < x" by simp
  then show ?thesis using assms(2) by (rule fl_mono_pos)
qed

lemma fl_between:
  assumes "0 \<le> a" "a \<le> x" "x \<le> b" "fl a = Finite a" "fl b = Finite b"
  shows "\<exists>y. fl x = Finite y \<and> a \<le> y \<and> y \<le> b \<and> fl y = Finite y"
proof -
  have 1: "dle (Finite a) (fl x)" using fl_mono_nonneg[OF assms(1,2)] assms(4) by simp
  have "0 \<le> x" using assms by linarith
  then have 2: "dle (fl x) (Finite b)" using fl_mono_nonneg[OF _ assms(3)] assms(5) by simp
  from 1 2 show ?thesis by (cases "fl x") (auto intro: fl_idem)
qed

lemma rhe_upper: "of_int (rhe x) \<le> x + 1/2"
  by (auto simp: rhe_def Let_def) linarith+

lemma rhe_lower: "x - 1/2 \<le> of_int (rhe x)"
  by (auto simp: rhe_def Let_def) linarith+

lemma ilog2_52: "ilog2 (2 ^ 52) = 52"
  by (rule ilog2_unique) simp_all

lemma repr_int: assumes "fl y = Finite y" "2 ^ 52 \<le> y" shows "\<exists>k. y = of_int k"
proof -
  have y0: "0 < y" using assms(2) by (smt (verit) zero_less_power)
  with assms(1) have n: "nearest y = y" by (auto simp: fl_pos split: if_splits)
  have "ilog2 (2 ^ 52) \<le> ilog2 y" using assms(2) by (intro ilog2_mono) simp_all
  then have "52 \<le> expo y" unfolding ilog2_52 by (simp add: expo_def)
  then have "ulp_of y = of_int (2 ^ nat (expo y - 52))"
    by (simp add: ulp_of_def power_int_def)
  then have "nearest y = of_int (rhe (y / ulp_of y) * 2 ^ nat (expo y - 52))"
    by (simp add: nearest_def)
  with n show ?thesis by metis
qed

lemma round2_finite:
  assumes "fl f = Finite f" "0 \<le> f"
  shows "\<exists>y. fl (of_int (rhe (f * 100)) / 100) = Finite y"
proof (cases "f \<le> 2 ^ 1023 - 1")
  case True
  let ?q = "real_of_int (rhe (f * 100)) / 100"
  have "0 \<le> rhe (f * 100)" using assms(2) by (intro rhe_ge) simp
  then have q0: "0 \<le> ?q" by simp
  have "?q \<le> f + 1 / 200" using rhe_upper[of "f * 100"] by simp
  with True have qle: "?q \<le> 2 ^ 1023" by linarith
  show ?thesis
  proof (cases "?q = 0")
    case True then show ?thesis by (simp add: fl_zero)
  next
    case False
    with q0 have "0 < ?q" by simp
    from fl_finite_below[OF this qle] show ?thesis by blast
  qed
next
  case False
  have "(2::real) ^ 52 \<le> 2 ^ 1023 - 1" by simp
  with False have "2 ^ 52 \<le> f" by linarith
  from repr_int[OF assms(1) this] obtain k where k: "f = of_int k" by blast
  have "f * 100 = of_int (k * 100)" by (simp add: k)
  then have "rhe (f * 100) = k * 100" by (simp only: rhe_of_int)
  then have "real_of_int (rhe (f * 100)) / 100 = f" by (simp add: k)
  with assms(1) show ?thesis by simp
qed

lemma expo_threshold: "expo (2 ^ 1024 - 2 ^ 970) = 1023"
  by (rule expo_eqI) simp_all

lemma nearest_threshold: "nearest (2 ^ 1024 - 2 ^ 970) = 2 ^ 1024"
proof -
  have u: "ulp_of (2 ^ 1024 - 2 ^ 970) = 2 ^ 971"
    unfolding ulp_of_def expo_threshold by simp
  have q: "((2::real) ^ 1024 - 2 ^ 970) / 2 ^ 971 = 18014398509481983 / 2" by simp
  have r: "rhe (18014398509481983 / 2) = 9007199254740992" by (simp add: rhe_def)
  show ?thesis unfolding nearest_def u q r by simp
qed

lemma fl_overflow_iff:
  assumes "0 < x" shows "fl x = PosInf \<longleftrightarrow> 2 ^ 1024 - 2 ^ 970 \<le> x"
proof
  assume "2 ^ 1024 - 2 ^ 970 \<le> x"
  moreover have "(0::real) < 2 ^ 1024 - 2 ^ 970" by simp
  ultimately have "nearest (2 ^ 1024 - 2 ^ 970) \<le> nearest x" by (intro nearest_mono)
  then show "fl x = PosInf" using assms unfolding nearest_threshold by (simp add: fl_pos)
next
  assume inf: "fl x = PosInf"
  show "2 ^ 1024 - 2 ^ 970 \<le> x"
  proof (rule ccontr)
    assume "\<not> 2 ^ 1024 - 2 ^ 970 \<le> x"
    then have lt: "x < 2 ^ 1024 - 2 ^ 970" by simp
    then have "expo x \<le> expo (2 ^ 1024 - 2 ^ 970)" using assms by (intro expo_mono) simp_all
    then have e: "expo x \<le> 1023" unfolding expo_threshold .
    have "nearest x < 2 ^ 1024"
    proof (cases "expo x = 1023")
      case True
      then have u: "ulp_of x = 2 ^ 971" by (simp add: ulp_of_def)
      have "x / 2 ^ 971 < ((2::real) ^ 1024 - 2 ^ 970) / 2 ^ 971"
        using lt by (intro divide_strict_right_mono) simp_all
      also have "\<dots> = of_int 9007199254740991 + 1 / 2" by simp
      finally have "rhe (x / 2 ^ 971) \<le> 9007199254740991" by (rule rhe_lt_half)
      then have "real_of_int (rhe (x / 2 ^ 971)) \<le> of_int 9007199254740991"
        by (simp only: of_int_le_iff)
      then have "real_of_int (rhe (x / 2 ^ 971)) * 2 ^ 971 \<le> 9007199254740991 * 2 ^ 971"
        by simp
      also have "\<dots> < (2::real) ^ 1024" by simp
      finally show ?thesis by (simp add: nearest_def u)
    next
      case False
      with e have "expo x + 1 \<le> 1023" by simp
      then have "(2::real) powi (expo x + 1) \<le> 2 powi 1023"
        by (intro power_int_increasing) simp_all
      also have "\<dots> < (2::real) ^ 1024" by simp
      finally show ?thesis using nearest_upper[OF assms] by linarith
    qed
    with inf assms show False by (simp add: fl_pos)
  qed
qed

lemma fl_pos_cases:
  assumes "0 \<le> x"
  shows "(fl x = PosInf \<and> 2 ^ 1024 - 2 ^ 970 \<le> x)
       \<or> (\<exists>y. fl x = Finite y \<and> 0 \<le> y \<and> fl y = Finite y \<and> x < 2 ^ 1024 - 2 ^ 970)"
proof (cases "x = 0")
  case True then show ?thesis by (simp add: fl_zero)
next
  case False
  with assms have x: "0 < x" by simp
  show ?thesis
  proof (cases "2 ^ 1024 - 2 ^ 970 \<le> x")
    case True with fl_overflow_iff[OF x] show ?thesis by simp
  next
    case False
    with fl_overflow_iff[OF x] have "fl x \<noteq> PosInf" by simp
    with x have "fl x = Finite (nearest x)" by (simp add: fl_pos split: if_splits)
    with False nearest_nonneg[of x] x fl_idem[of x "nearest x"] show ?thesis by simp
  qed
qed

lemma is_double_fl: "is_double (fl x)"
  by (cases "fl x") (auto simp: is_double_def intro: fl_idem)

lemma is_double_dmul: "is_double (dmul a b)"
  by (cases a; cases b) (auto simp: is_double_fl, auto simp: is_double_def)

lemma fl_nonneg: "0 \<le> x \<Longrightarrow> dle (Finite 0) (fl x)"
  using fl_mono_nonneg[of 0 x] by (simp add: fl_zero)

lemma dmul_nonneg: "dle (Finite 0) x \<Longrightarrow> 0 < z \<Longrightarrow> dle (Finite 0) (dmul x (Finite z))"
  by (cases x) (auto intro: fl_nonneg)

lemma dmul_mono_right:
  "dle (Finite 0) x \<Longrightarrow> 0 < z \<Longrightarrow> z \<le> z' \<Longrightarrow> dle (dmul x (Finite z)) (dmul x (Finite z'))"
  by (cases x) (auto intro!: fl_mono_nonneg mult_left_mono)

lemma dmul_mono_left:
  "dle (Finite 0) x \<Longrightarrow> dle x x' \<Longrightarrow> 0 < z \<Longrightarrow> dle (dmul x (Finite z)) (dmul x' (Finite z))"
proof (cases x; cases x')
  fix a b assume "dle (Finite 0) x" "dle x x'" "0 < z" "x = Finite a" "x' = Finite b"
  then show ?thesis by (auto intro!: fl_mono_nonneg mult_right_mono)
next
  fix a assume h: "dle (Finite 0) x" "0 < z" "x = Finite a" "x' = PosInf"
  then have "0 \<le> a * z" by simp
  then have "dle (Finite 0) (fl (a * z))" by (rule fl_nonneg)
  then show ?thesis using h by (cases "fl (a * z)") auto
qed auto

lemma fl_one: "fl 1 = Finite 1"
  using fl_int[of 1] by simp

lemma fl_two: "fl 2 = Finite 2"
  using fl_int[of 2] by simp

lemma literal_12:
  assumes "1 \<le> q" "q \<le> 2"
  shows "\<exists>v. fl q = Finite v \<and> 1 \<le> v \<and> v \<le> 2 \<and> fl v = Finite v"
  using fl_between[of 1 q 2] assms fl_one fl_two by simp

lemma getitem_int_as_int:
  "as_int r = Some k \<Longrightarrow>
     getitem_int d r = (case map_of d k of None \<Rightarrow> Inl (KeyError r) | Some v \<Rightarrow> Inr v)"
  by (cases r) (auto simp: getitem_int_def)

lemma rating_ok: "rating_violation r = None \<longleftrightarrow> (\<exists>k. as_int r = Some k \<and> k \<in> {1, 2, 3, 4, 5})"
  by (auto simp: rating_violation_def is_integer_def in_range_def split: option.splits)

lemma traffic_lookup:
  assumes "rating_violation r = None"
  shows "\<exists>v. getitem_int (TRAFFIC_MULTIPLIERS TaxiCalculator) r = Inr (Finite v)
             \<and> 1 \<le> v \<and> v \<le> 2 \<and> fl v = Finite v"
proof -
  from assms obtain k where k: "as_int r = Some k" "k \<in> {1, 2, 3, 4, 5}"
    unfolding rating_ok by blast
  show ?thesis unfolding getitem_int_as_int[OF k(1)]
    using k(2) literal_12[of 1] literal_12[of "11/10"] literal_12[of "5/4"]
      literal_12[of "3/2"] literal_12[of 2]
    by (auto simp: TaxiCalculator_def)
qed

lemma weather_lookup:
  assumes "rating_violation r = None"
  shows "\<exists>v. getitem_int (WEATHER_MULTIPLIERS TaxiCalculator) r = Inr (Finite v)
             \<and> 1 \<le> v \<and> v \<le> 2 \<and> fl v = Finite v"
proof -
  from assms obtain k where k: "as_int r = Some k" "k \<in> {1, 2, 3, 4, 5}"
    unfolding rating_ok by blast
  show ?thesis unfolding getitem_int_as_int[OF k(1)]
    using k(2) literal_12[of 1] literal_12[of "21/20"] literal_12[of "23/20"]
      literal_12[of "13/10"] literal_12[of "3/2"]
    by (auto simp: TaxiCalculator_def)
qed

lemma overload_lookup:
  assumes "rating_violation r = None"
  shows "\<exists>v. getitem_int (OVERLOAD_MULTIPLIERS TaxiCalculator) r = Inr (Finite v)
             \<and> 1 \<le> v \<and> v \<le> 2 \<and> fl v = Finite v"
proof -
  from assms obtain k where k: "as_int r = Some k" "k \<in> {1, 2, 3, 4, 5}"
    unfolding rating_ok by blast
  show ?thesis unfolding getitem_int_as_int[OF k(1)]
    using k(2) literal_12[of 1] literal_12[of "11/10"] literal_12[of "5/4"]
      literal_12[of "3/2"] literal_12[of 2]
    by (auto simp: TaxiCalculator_def)
qed

lemma rate_lookup:
  assumes "hashable t" "in_catalog TaxiCalculator t"
  shows "\<exists>rate. getitem_str (TARIFF_RATES TaxiCalculator) t = Inr rate
            \<and> rate \<in> {100, 150, 200, 300}"
  using assms tariff_names_distinct
  by (cases t) (auto simp: in_catalog_def getitem_str_def TaxiCalculator_def)

lemma int_to_double_rate:
  "rate \<in> {100, 150, 200, 300} \<Longrightarrow> int_to_double rate = Inr (Finite (of_int rate))"
  using fl_int[of rate] by (auto simp: int_to_double_def)

section \<open>The validations\<close>

lemma validate_distance_ok:
  "validate_distance d = Inr () \<longleftrightarrow> is_number d \<and> \<not> not_positive d"
  by (auto simp: validate_distance_def is_number_def not_positive_def split: option.splits)

lemma validate_distance_err:
  "validate_distance d = Inl e \<Longrightarrow>
     (if is_number d then not_positive d \<and> kind_of e = RangeKind else kind_of e = TypeKind)"
  by (auto simp: validate_distance_def is_number_def not_positive_def split: option.splits if_splits)

lemma validate_tariff_ok:
  "validate_tariff self t = Inr () \<longleftrightarrow> hashable t \<and> in_catalog self t"
  by (cases t) (auto simp: validate_tariff_def contains_str_def in_catalog_def)

lemma validate_tariff_err:
  "validate_tariff self t = Inl e \<Longrightarrow>
     (if hashable t then \<not> in_catalog self t \<and> kind_of e = RangeKind else kind_of e = TypeKind)"
  by (cases t) (auto simp: validate_tariff_def contains_str_def in_catalog_def split: if_splits)

lemma validate_rating_ok:
  "validate_rating r l = Inr () \<longleftrightarrow> rating_violation r = None"
  by (auto simp: validate_rating_def rating_violation_def is_integer_def in_range_def
      split: option.splits)

lemma validate_rating_err:
  "validate_rating r l = Inl e \<Longrightarrow> rating_violation r = Some (kind_of e)"
  by (auto simp: validate_rating_def rating_violation_def is_integer_def in_range_def
      split: option.splits if_splits)

lemma unit_cases: "(x :: error + unit) = Inr () \<or> (\<exists>e. x = Inl e)"
  by (cases x) auto

lemma first_violation_None:
  "first_violation self d t r1 r2 r3 = None \<longleftrightarrow>
     is_number d \<and> \<not> not_positive d \<and> hashable t \<and> in_catalog self t
     \<and> rating_violation r1 = None \<and> rating_violation r2 = None \<and> rating_violation r3 = None"
  by (auto simp: first_violation_def split: option.splits)

lemma fl_four: "fl 4 = Finite 4"
  using fl_int[of 4] by simp

lemma fl_eight: "fl 8 = Finite 8"
  using fl_int[of 8] by simp

lemma fl_fifty: "fl 50 = Finite 50"
  using fl_int[of 50] by simp

lemma total_multiplier_bounds:
  assumes "1 \<le> a" "a \<le> 2" "1 \<le> w" "w \<le> 2" "1 \<le> v" "v \<le> 2"
  shows "\<exists>z. dmul (dmul (Finite a) (Finite w)) (Finite v) = Finite z
            \<and> 1 \<le> z \<and> z \<le> 8 \<and> fl z = Finite z"
proof -
  have "1 * 1 \<le> a * w" using assms by (intro mult_mono) simp_all
  moreover have "a * w \<le> 2 * 2" using assms by (intro mult_mono) simp_all
  ultimately obtain y where y: "fl (a * w) = Finite y" "1 \<le> y" "y \<le> 4"
    using fl_between[of 1 "a * w" 4] fl_one fl_four by auto
  have "1 * 1 \<le> y * v" using assms y by (intro mult_mono) simp_all
  moreover have "y * v \<le> 4 * 2" using assms y by (intro mult_mono) simp_all
  ultimately obtain z where "fl (y * v) = Finite z" "1 \<le> z" "z \<le> 8" "fl z = Finite z"
    using fl_between[of 1 "y * v" 8] fl_one fl_eight by auto
  with y show ?thesis by simp
qed

lemma compute_fare_unfold:
  assumes "as_num d = Some n"
    and "getitem_str (TARIFF_RATES self) t = Inr rate"
    and "getitem_int (TRAFFIC_MULTIPLIERS self) r1 = Inr a"
    and "getitem_int (WEATHER_MULTIPLIERS self) r2 = Inr w"
    and "getitem_int (OVERLOAD_MULTIPLIERS self) r3 = Inr v"
  shows "compute_fare self d t r1 r2 r3 =
     bind (num_mul n (NInt rate)) (\<lambda>b.
     bind (num_mul b (NFloat (dmul (dmul a w) v))) (\<lambda>f.
     py_round (py_max f (NInt (MIN_FARE self))) 2))"
  using assms by (simp add: compute_fare_def py_mul_def)

lemma finish_shape:
  assumes "is_double x" "x = NaN \<or> dle (Finite 0) x"
  shows "\<exists>g. py_round (py_max (NFloat x) (NInt 50)) 2 = Inr g
           \<and> (x = NaN \<longrightarrow> g = NFloat NaN)
           \<and> (x \<noteq> NaN \<longrightarrow> num_le (NInt 50) g
                 \<and> (g = NInt 50 \<or> g = NFloat PosInf
                      \<or> (\<exists>k. 5000 \<le> k \<and> g = NFloat (fl (of_int k / 100)))))"
proof (cases x)
  case (Finite f)
  with assms have f: "0 \<le> f" "fl f = Finite f" by (auto simp: is_double_def)
  show ?thesis
  proof (cases "f < 50")
    case True
    with Finite show ?thesis by (simp add: py_max_def num_less_def num_le_def)
  next
    case False
    let ?k = "rhe (f * 100)"
    let ?q = "real_of_int ?k / 100"
    from round2_finite[OF f(2,1)] obtain y where y: "fl ?q = Finite y" by blast
    have k: "5000 \<le> ?k" using False by (intro rhe_ge) simp
    then have "50 \<le> ?q" by simp
    then have "dle (fl 50) (fl ?q)" by (intro fl_mono_nonneg) simp_all
    then have "50 \<le> y" by (simp add: fl_fifty y)
    with False Finite y k show ?thesis
      by (auto simp: py_max_def num_less_def num_le_def intro!: exI[of _ ?k])
  qed
qed (use assms in \<open>auto simp: py_max_def num_less_def num_le_def\<close>)

lemma calculate_fare_unfold:
  "calculate_fare self d t r1 r2 r3 =
     (case first_error [validate_distance d, validate_tariff self t,
                        validate_rating r1 label_traffic, validate_rating r2 label_weather,
                        validate_rating r3 label_overload] of
        Some e \<Rightarrow> Inl e
      | None \<Rightarrow> compute_fare self d t r1 r2 r3)"
  using unit_cases[of "validate_distance d"] unit_cases[of "validate_tariff self t"]
    unit_cases[of "validate_rating r1 label_traffic"]
    unit_cases[of "validate_rating r2 label_weather"]
    unit_cases[of "validate_rating r3 label_overload"]
  by (auto simp: calculate_fare_def fare_with_labels_def)

lemma calculate_fare_valid_eq:
  assumes "first_violation self d t r1 r2 r3 = None"
  shows "calculate_fare self d t r1 r2 r3 = compute_fare self d t r1 r2 r3"
proof -
  from assms have "validate_distance d = Inr ()" "validate_tariff self t = Inr ()"
    "validate_rating r1 label_traffic = Inr ()" "validate_rating r2 label_weather = Inr ()"
    "validate_rating r3 label_overload = Inr ()"
    unfolding first_violation_None validate_distance_ok validate_tariff_ok validate_rating_ok
    by simp_all
  then show ?thesis by (simp add: calculate_fare_unfold)
qed

lemma calculate_fare_invalid:
  assumes "first_violation self d t r1 r2 r3 = Some k"
  shows "\<exists>e. calculate_fare self d t r1 r2 r3 = Inl e \<and> kind_of e = k"
proof -
  note ok = validate_distance_ok validate_tariff_ok validate_rating_ok
  show ?thesis
  proof (cases "validate_distance d")
    case (Inl e)
    with validate_distance_err[OF Inl] assms show ?thesis
      by (auto simp: calculate_fare_unfold first_violation_def split: if_splits)
  next
    case d: (Inr u)
    then have dok: "validate_distance d = Inr ()" by simp
    show ?thesis
    proof (cases "validate_tariff self t")
      case (Inl e)
      with validate_tariff_err[OF Inl] assms dok dok[unfolded ok] show ?thesis
        by (auto simp: calculate_fare_unfold first_violation_def split: if_splits)
    next
      case (Inr u)
      then have tok: "validate_tariff self t = Inr ()" by simp
      show ?thesis
      proof (cases "validate_rating r1 label_traffic")
        case (Inl e)
        with validate_rating_err[OF Inl] assms dok tok dok[unfolded ok] tok[unfolded ok]
        show ?thesis by (auto simp: calculate_fare_unfold first_violation_def)
      next
        case (Inr u)
        then have ok1: "validate_rating r1 label_traffic = Inr ()" by simp
        show ?thesis
        proof (cases "validate_rating r2 label_weather")
          case (Inl e)
          with validate_rating_err[OF Inl] assms dok tok ok1 dok[unfolded ok] tok[unfolded ok]
            ok1[unfolded ok]
          show ?thesis by (auto simp: calculate_fare_unfold first_violation_def)
        next
          case (Inr u)
          then have ok2: "validate_rating r2 label_weather = Inr ()" by simp
          show ?thesis
          proof (cases "validate_rating r3 label_overload")
            case (Inl e)
            with validate_rating_err[OF Inl] assms dok tok ok1 ok2 dok[unfolded ok]
              tok[unfolded ok] ok1[unfolded ok] ok2[unfolded ok]
            show ?thesis by (auto simp: calculate_fare_unfold first_violation_def)
          next
            case (Inr u)
            then have ok3: "validate_rating r3 label_overload = Inr ()" by simp
            from dok tok ok1 ok2 ok3 have "first_violation self d t r1 r2 r3 = None"
              unfolding ok first_violation_None by simp
            with assms show ?thesis by simp
          qed
        qed
      qed
    qed
  qed
qed

lemma threshold_int:
  "(2 ^ 1024 - 2 ^ 970 \<le> real_of_int m) \<longleftrightarrow> (2 ^ 1024 - 2 ^ 970 \<le> m)"
proof -
  have "real_of_int (2 ^ 1024 - 2 ^ 970) = 2 ^ 1024 - 2 ^ 970" by simp
  then show ?thesis by (metis of_int_le_iff)
qed

lemma fare_before_max:
  assumes "first_violation TaxiCalculator d t r1 r2 r3 = None"
  shows "(base_fare_too_large TaxiCalculator d t
          \<and> compute_fare TaxiCalculator d t r1 r2 r3 = Inl (OverflowError IntTooLarge))
       \<or> (\<not> base_fare_too_large TaxiCalculator d t
          \<and> (\<exists>x. is_double x \<and> (if positive d then dle (Finite 0) x else x = NaN)
              \<and> compute_fare TaxiCalculator d t r1 r2 r3
                   = py_round (py_max (NFloat x) (NInt 50)) 2))"
proof -
  from assms have v: "is_number d" "\<not> not_positive d" "hashable t"
    "in_catalog TaxiCalculator t" "rating_violation r1 = None" "rating_violation r2 = None"
    "rating_violation r3 = None"
    unfolding first_violation_None by simp_all
  from rate_lookup[OF v(3,4)] obtain rate where
    rate: "getitem_str (TARIFF_RATES TaxiCalculator) t = Inr rate" "rate \<in> {100, 150, 200, 300}"
    by blast
  from traffic_lookup[OF v(5)] obtain a where
    a: "getitem_int (TRAFFIC_MULTIPLIERS TaxiCalculator) r1 = Inr (Finite a)" "1 \<le> a" "a \<le> 2"
    by blast
  from weather_lookup[OF v(6)] obtain w where
    w: "getitem_int (WEATHER_MULTIPLIERS TaxiCalculator) r2 = Inr (Finite w)" "1 \<le> w" "w \<le> 2"
    by blast
  from overload_lookup[OF v(7)] obtain c where
    c: "getitem_int (OVERLOAD_MULTIPLIERS TaxiCalculator) r3 = Inr (Finite c)" "1 \<le> c" "c \<le> 2"
    by blast
  from total_multiplier_bounds[OF a(2,3) w(2,3) c(2,3)] obtain z where
    z: "dmul (dmul (Finite a) (Finite w)) (Finite c) = Finite z" "1 \<le> z" by blast
  then have z0: "0 < z" by linarith
  from v(1) obtain n where n: "as_num d = Some n" by (auto simp: is_number_def)
  have min: "MIN_FARE TaxiCalculator = 50" by (simp add: TaxiCalculator_def)
  note cf = compute_fare_unfold[OF n rate(1) a(1) w(1) c(1), unfolded z(1) min]
  have r0: "0 < real_of_int rate" using rate(2) by auto
  show ?thesis
  proof (cases n)
    case (NInt m)
    with n have ai: "as_int d = Some m" by (cases d) (auto split: if_splits)
    from n NInt v(2) have m0: "0 < m" by (simp add: not_positive_def num_le_def)
    then have pos: "positive d" using n NInt by (simp add: positive_def num_less_def)
    have "0 \<le> m * rate" using m0 rate(2) by auto
    then have mr: "0 \<le> real_of_int (m * rate)" by (simp only: of_int_0_le_iff)
    have big: "base_fare_too_large TaxiCalculator d t \<longleftrightarrow> 2 ^ 1024 - 2 ^ 970 \<le> m * rate"
      by (simp add: base_fare_too_large_def ai rate(1))
    from fl_pos_cases[OF mr] show ?thesis
    proof
      assume "fl (real_of_int (m * rate)) = PosInf \<and> 2 ^ 1024 - 2 ^ 970 \<le> real_of_int (m * rate)"
      then show ?thesis
        unfolding threshold_int big cf NInt by (simp add: int_to_double_def)
    next
      assume "\<exists>y. fl (real_of_int (m * rate)) = Finite y \<and> 0 \<le> y \<and> fl y = Finite y
                \<and> real_of_int (m * rate) < 2 ^ 1024 - 2 ^ 970"
      then obtain y where y: "fl (real_of_int (m * rate)) = Finite y" "0 \<le> y"
        and lt: "\<not> 2 ^ 1024 - 2 ^ 970 \<le> real_of_int (m * rate)" by auto
      have "dle (Finite 0) (dmul (Finite y) (Finite z))"
        using y(2) z0 by (intro dmul_nonneg) simp_all
      with lt y pos show ?thesis
        unfolding threshold_int big cf NInt
        by (auto simp: int_to_double_def is_double_dmul simp del: dmul.simps
            intro!: exI[of _ "dmul (Finite y) (Finite z)"])
    qed
  next
    case (NFloat xd)
    with n have ai: "as_int d = None" by (cases d) auto
    then have nb: "\<not> base_fare_too_large TaxiCalculator d t"
      by (simp add: base_fare_too_large_def)
    let ?x = "dmul (dmul xd (Finite (of_int rate))) (Finite z)"
    have eq: "compute_fare TaxiCalculator d t r1 r2 r3 = py_round (py_max (NFloat ?x) (NInt 50)) 2"
      unfolding cf NFloat by (simp add: int_to_double_rate[OF rate(2)] del: dmul.simps)
    have shape: "if positive d then dle (Finite 0) ?x else ?x = NaN"
    proof (cases "positive d")
      case True
      with n NFloat have "dle (Finite 0) xd"
        by (cases xd) (auto simp: positive_def num_less_def)
      then have "dle (Finite 0) (dmul xd (Finite (of_int rate)))" using r0 by (rule dmul_nonneg)
      then have "dle (Finite 0) ?x" using z0 by (rule dmul_nonneg)
      with True show ?thesis by simp
    next
      case False
      with n NFloat v(2) have "xd = NaN"
        by (cases xd) (auto simp: positive_def not_positive_def num_less_def num_le_def)
      with False show ?thesis by simp
    qed
    from nb eq shape is_double_dmul show ?thesis by blast
  qed
qed

lemma calculate_fare_valid:
  assumes "first_violation TaxiCalculator d t r1 r2 r3 = None"
  shows "(base_fare_too_large TaxiCalculator d t
          \<and> calculate_fare TaxiCalculator d t r1 r2 r3 = Inl (OverflowError IntTooLarge))
       \<or> (\<not> base_fare_too_large TaxiCalculator d t
          \<and> (\<exists>g. calculate_fare TaxiCalculator d t r1 r2 r3 = Inr g
                \<and> (if positive d
                    then num_le (NInt 50) g
                       \<and> (g = NInt 50 \<or> g = NFloat PosInf
                          \<or> (\<exists>k. 5000 \<le> k \<and> g = NFloat (fl (of_int k / 100))))
                    else g = NFloat NaN)))"
proof -
  note eq = calculate_fare_valid_eq[OF assms]
  from fare_before_max[OF assms] show ?thesis
  proof
    assume "base_fare_too_large TaxiCalculator d t
          \<and> compute_fare TaxiCalculator d t r1 r2 r3 = Inl (OverflowError IntTooLarge)"
    then show ?thesis by (simp add: eq)
  next
    assume "\<not> base_fare_too_large TaxiCalculator d t
          \<and> (\<exists>x. is_double x \<and> (if positive d then dle (Finite 0) x else x = NaN)
              \<and> compute_fare TaxiCalculator d t r1 r2 r3
                   = py_round (py_max (NFloat x) (NInt 50)) 2)"
    then obtain x where nb: "\<not> base_fare_too_large TaxiCalculator d t"
      and x: "is_double x" "if positive d then dle (Finite 0) x else x = NaN"
      and c: "compute_fare TaxiCalculator d t r1 r2 r3 = py_round (py_max (NFloat x) (NInt 50)) 2"
      by blast
    from x(2) have "x = NaN \<or> dle (Finite 0) x" by (auto split: if_splits)
    from finish_shape[OF x(1) this] obtain g where
      g: "py_round (py_max (NFloat x) (NInt 50)) 2 = Inr g" "x = NaN \<longrightarrow> g = NFloat NaN"
      "x \<noteq> NaN \<longrightarrow> num_le (NInt 50) g
                 \<and> (g = NInt 50 \<or> g = NFloat PosInf
                      \<or> (\<exists>k. 5000 \<le> k \<and> g = NFloat (fl (of_int k / 100))))" by blast
    have "positive d \<Longrightarrow> x \<noteq> NaN" using x(2) by auto
    with nb g x(2) show ?thesis unfolding eq c by (auto split: if_splits)
  qed
qed

lemma validate_rating_label:
  "map_sum strip_label id (validate_rating r l) = map_sum strip_label id (validate_rating r l')"
  by (auto simp: validate_rating_def split: option.splits)

lemma kind_strip: "kind_of (strip_label e) = kind_of e"
  by (cases e rule: strip_label.cases) auto

lemma bind_strip:
  assumes "map_sum strip_label id a = map_sum strip_label id (a' :: error + unit)"
    and "map_sum strip_label id b = map_sum strip_label id (b' :: error + 'a)"
  shows "map_sum strip_label id (bind a (\<lambda>_. b)) = map_sum strip_label id (bind a' (\<lambda>_. b'))"
  using assms by (cases a; cases a') auto

text \<open>
  Claim C10. The label given to \<open>validate_rating\<close> changes nothing but the text of the
  out-of-range message: for every rating and every two labels the validation raises for
  one label exactly when it raises for the other, with the same kind of error, and
  \<open>calculate_fare\<close> with any other three labels returns the same fare or raises the same
  exception up to that label.
\<close>

theorem label_only_in_text:
  "(isl (validate_rating r l) \<longleftrightarrow> isl (validate_rating r l'))
   \<and> map_sum kind_of id (validate_rating r l) = map_sum kind_of id (validate_rating r l')
   \<and> map_sum strip_label id (validate_rating r l) = map_sum strip_label id (validate_rating r l')
   \<and> map_sum strip_label id (fare_with_labels l1 l2 l3 self d t r1 r2 r3)
       = map_sum strip_label id (calculate_fare self d t r1 r2 r3)
   \<and> map_sum kind_of id (fare_with_labels l1 l2 l3 self d t r1 r2 r3)
       = map_sum kind_of id (calculate_fare self d t r1 r2 r3)"
proof -
  have 1: "isl (validate_rating r l) \<longleftrightarrow> isl (validate_rating r l')"
    by (auto simp: validate_rating_def split: option.splits)
  have 2: "map_sum kind_of id (validate_rating r l) = map_sum kind_of id (validate_rating r l')"
    by (auto simp: validate_rating_def split: option.splits)
  have s: "map_sum strip_label id (fare_with_labels a1 a2 a3 self d t r1 r2 r3)
      = map_sum strip_label id (fare_with_labels b1 b2 b3 self d t r1 r2 r3)" for a1 a2 a3 b1 b2 b3
    unfolding fare_with_labels_def
    by (intro bind_strip validate_rating_label refl)
  have 4: "map_sum strip_label id (fare_with_labels l1 l2 l3 self d t r1 r2 r3)
       = map_sum strip_label id (calculate_fare self d t r1 r2 r3)"
    unfolding calculate_fare_def by (rule s)
  have "map_sum kind_of id x = map_sum kind_of id y"
    if "map_sum strip_label id x = map_sum strip_label id y" for x y :: "error + num"
    using that kind_strip by (cases x; cases y) (auto, metis)
  with 4 have 5: "map_sum kind_of id (fare_with_labels l1 l2 l3 self d t r1 r2 r3)
       = map_sum kind_of id (calculate_fare self d t r1 r2 r3)" by blast
  from 1 2 validate_rating_label 4 5 show ?thesis by blast
qed

section \<open>Evaluation on concrete inputs\<close>

lemma fl_numeral: "numeral k \<le> (2::int) ^ 53 \<Longrightarrow> fl (numeral k) = Finite (numeral k)"
  using fl_int[of "numeral k"] by simp

lemma fare_eval:
  assumes "first_violation TaxiCalculator d t r1 r2 r3 = None"
    and "as_num d = Some n"
    and "getitem_str (TARIFF_RATES TaxiCalculator) t = Inr rate"
    and "getitem_int (TRAFFIC_MULTIPLIERS TaxiCalculator) r1 = Inr a"
    and "getitem_int (WEATHER_MULTIPLIERS TaxiCalculator) r2 = Inr w"
    and "getitem_int (OVERLOAD_MULTIPLIERS TaxiCalculator) r3 = Inr c"
  shows "calculate_fare TaxiCalculator d t r1 r2 r3 =
     bind (num_mul n (NInt rate)) (\<lambda>b.
     bind (num_mul b (NFloat (dmul (dmul a w) c))) (\<lambda>f.
     py_round (py_max f (NInt 50)) 2))"
  unfolding calculate_fare_valid_eq[OF assms(1)] compute_fare_unfold[OF assms(2-6)]
  by (simp add: TaxiCalculator_def)

lemma lit_1_1: "fl (11/10) = Finite (2476979795053773 / 2251799813685248)"
  by (rule fl_eval[where e=0]) (simp_all add: rhe_def power_int_minus)

lemma lit_1_15: "fl (23/20) = Finite (2589569785738035 / 2251799813685248)"
  by (rule fl_eval[where e=0]) (simp_all add: rhe_def power_int_minus)

lemma lit_1_3: "fl (13/10) = Finite (5854679515581645 / 4503599627370496)"
  by (rule fl_eval[where e=0]) (simp_all add: rhe_def power_int_minus)

lemma lit_1_5: "fl (3/2) = Finite (3/2)"
  by (rule fl_eval[where e=0]) (simp_all add: rhe_def power_int_minus)

lemma lit_0_1: "fl (1/10) = Finite (3602879701896397 / 36028797018963968)"
  by (rule fl_eval[where e="-4"]) (simp_all add: rhe_def power_int_minus)

lemma rate_econom: "getitem_str (TARIFF_RATES TaxiCalculator) (PStr econom) = Inr 100"
  by (simp add: getitem_str_def TaxiCalculator_def)

lemma rate_comfort: "getitem_str (TARIFF_RATES TaxiCalculator) (PStr comfort) = Inr 150"
  by (simp add: getitem_str_def TaxiCalculator_def econom_def comfort_def)

lemma rate_comfort_plus: "getitem_str (TARIFF_RATES TaxiCalculator) (PStr comfort_plus) = Inr 200"
  by (simp add: getitem_str_def TaxiCalculator_def econom_def comfort_def comfort_plus_def)

lemma rate_business: "getitem_str (TARIFF_RATES TaxiCalculator) (PStr business) = Inr 300"
  by (simp add: getitem_str_def TaxiCalculator_def econom_def comfort_def comfort_plus_def
      business_def)

lemma traffic_table:
  "getitem_int (TRAFFIC_MULTIPLIERS TaxiCalculator) (PInt 1) = Inr (Finite 1)"
  "getitem_int (TRAFFIC_MULTIPLIERS TaxiCalculator) (PInt 2)
     = Inr (Finite (2476979795053773 / 2251799813685248))"
  "getitem_int (TRAFFIC_MULTIPLIERS TaxiCalculator) (PInt 4) = Inr (Finite (3/2))"
  "getitem_int (TRAFFIC_MULTIPLIERS TaxiCalculator) (PInt 5) = Inr (Finite 2)"
  by (simp_all add: getitem_int_def TaxiCalculator_def fl_one fl_two lit_1_1 lit_1_5)

lemma weather_table:
  "getitem_int (WEATHER_MULTIPLIERS TaxiCalculator) (PInt 1) = Inr (Finite 1)"
  "getitem_int (WEATHER_MULTIPLIERS TaxiCalculator) (PInt 3)
     = Inr (Finite (2589569785738035 / 2251799813685248))"
  "getitem_int (WEATHER_MULTIPLIERS TaxiCalculator) (PInt 4)
     = Inr (Finite (5854679515581645 / 4503599627370496))"
  "getitem_int (WEATHER_MULTIPLIERS TaxiCalculator) (PInt 5) = Inr (Finite (3/2))"
  by (simp_all add: getitem_int_def TaxiCalculator_def fl_one lit_1_15 lit_1_3 lit_1_5)

lemma overload_table:
  "getitem_int (OVERLOAD_MULTIPLIERS TaxiCalculator) (PInt 1) = Inr (Finite 1)"
  "getitem_int (OVERLOAD_MULTIPLIERS TaxiCalculator) (PInt 2)
     = Inr (Finite (2476979795053773 / 2251799813685248))"
  "getitem_int (OVERLOAD_MULTIPLIERS TaxiCalculator) (PInt 5) = Inr (Finite 2)"
  by (simp_all add: getitem_int_def TaxiCalculator_def fl_one fl_two lit_1_1)

lemma valid_simps:
  "is_number (PInt n)" "is_number (PFloat x)"
  "not_positive (PInt n) \<longleftrightarrow> n \<le> 0"
  "not_positive (PFloat (Finite y)) \<longleftrightarrow> y \<le> 0"
  "positive (PInt n) \<longleftrightarrow> 0 < n"
  "positive (PFloat (Finite y)) \<longleftrightarrow> 0 < y"
  "hashable (PStr s)"
  "in_catalog TaxiCalculator (PStr s) \<longleftrightarrow> s \<in> {econom, comfort, comfort_plus, business}"
  "rating_violation (PInt k) = None \<longleftrightarrow> 1 \<le> k \<and> k \<le> 5"
  "in_range (PInt k) \<longleftrightarrow> 1 \<le> k \<and> k \<le> 5"
  by (auto simp: is_number_def not_positive_def positive_def num_le_def num_less_def
      in_catalog_def rating_violation_def is_integer_def in_range_def TaxiCalculator_def)

lemma prod_0_1: "dmul (Finite (3602879701896397 / 36028797018963968)) (Finite 100) = Finite 10"
  unfolding dmul.simps by (rule fl_eval[where e=3]) (simp_all add: rhe_def power_int_minus)

lemma prod_s6_1:
  "dmul (Finite (3/2)) (Finite (2589569785738035 / 2251799813685248))
     = Finite (7768709357214105 / 4503599627370496)"
  unfolding dmul.simps by (rule fl_eval[where e=0]) (simp_all add: rhe_def power_int_minus)

lemma prod_s6_2:
  "dmul (Finite (7768709357214105 / 4503599627370496))
        (Finite (2476979795053773 / 2251799813685248))
     = Finite (2136395073233879 / 1125899906842624)"
  unfolding dmul.simps by (rule fl_eval[where e=0]) (simp_all add: rhe_def power_int_minus)

lemma prod_s6_3:
  "dmul (Finite 1000) (Finite (2136395073233879 / 1125899906842624)) = Finite (3795/2)"
  unfolding dmul.simps by (rule fl_eval[where e=10]) (simp_all add: rhe_def power_int_minus)

lemma fl_1897_5: "fl (3795/2) = Finite (3795/2)"
  by (rule fl_eval[where e=10]) (simp_all add: rhe_def power_int_minus)

lemma prod_c7_1:
  "dmul (Finite (2476979795053773 / 2251799813685248))
        (Finite (5854679515581645 / 4503599627370496))
     = Finite (3220073733569905 / 2251799813685248)"
  unfolding dmul.simps by (rule fl_eval[where e=0]) (simp_all add: rhe_def power_int_minus)

lemma prod_c7_2:
  "dmul (Finite (3220073733569905 / 2251799813685248))
        (Finite (2476979795053773 / 2251799813685248))
     = Finite (221380069182931 / 140737488355328)"
  unfolding dmul.simps by (rule fl_eval[where e=0]) (simp_all add: rhe_def power_int_minus)

lemma prod_c7_3:
  "dmul (Finite 100) (Finite (221380069182931 / 140737488355328))
     = Finite (5534501729573275 / 35184372088832)"
  unfolding dmul.simps by (rule fl_eval[where e=7]) (simp_all add: rhe_def power_int_minus)

lemma fl_157_3: "fl (1573/10) = Finite (2767250864786637 / 17592186044416)"
  by (rule fl_eval[where e=7]) (simp_all add: rhe_def power_int_minus)

lemma prod_c7_4:
  "dmul (Finite 100) (Finite (2767250864786637 / 17592186044416))
     = Finite (8647658952458241 / 549755813888)"
  unfolding dmul.simps by (rule fl_eval[where e=13]) (simp_all add: rhe_def power_int_minus)

lemma prod_c2_1: "dmul (Finite (513/1024)) (Finite 100) = Finite (12825/256)"
  unfolding dmul.simps by (rule fl_eval[where e=5]) (simp_all add: rhe_def power_int_minus)

lemma prod_c2_2: "dmul (Finite (12825/256)) (Finite 1) = Finite (12825/256)"
  unfolding dmul.simps by (rule fl_eval[where e=5]) (simp_all add: rhe_def power_int_minus)

lemma fl_50_1: "fl (501/10) = Finite (7050948166601933 / 140737488355328)"
  by (rule fl_eval[where e=5]) (simp_all add: rhe_def power_int_minus)

lemma scenario_1:
  "calculate_fare_default TaxiCalculator (PInt 10) (PStr econom) = Inr (NFloat (Finite 1000))"
  unfolding calculate_fare_default_def
  apply (subst fare_eval[OF _ _ rate_econom traffic_table(1) weather_table(1) overload_table(1)])
    apply (simp add: first_violation_None valid_simps)
   apply simp
  apply (simp add: int_to_double_def fl_numeral fl_one)
  apply (simp add: py_max_def num_less_def)
  apply (simp add: rhe_def fl_numeral)
  done

lemma scenario_2:
  "calculate_fare_default TaxiCalculator (PInt 10) (PStr comfort) = Inr (NFloat (Finite 1500))"
  unfolding calculate_fare_default_def
  apply (subst fare_eval[OF _ _ rate_comfort traffic_table(1) weather_table(1) overload_table(1)])
    apply (simp add: first_violation_None valid_simps)
   apply simp
  apply (simp add: int_to_double_def fl_numeral fl_one)
  apply (simp add: py_max_def num_less_def)
  apply (simp add: rhe_def fl_numeral)
  done

lemma scenario_3:
  "calculate_fare_default TaxiCalculator (PInt 10) (PStr business) = Inr (NFloat (Finite 3000))"
  unfolding calculate_fare_default_def
  apply (subst fare_eval[OF _ _ rate_business traffic_table(1) weather_table(1) overload_table(1)])
    apply (simp add: first_violation_None valid_simps)
   apply simp
  apply (simp add: int_to_double_def fl_numeral fl_one)
  apply (simp add: py_max_def num_less_def)
  apply (simp add: rhe_def fl_numeral)
  done

lemma tm_ones: "dmul (dmul (Finite 1) (Finite 1)) (Finite 1) = Finite 1"
  by (simp add: fl_one)

lemma prod_10_1: "dmul (Finite 10) (Finite 1) = Finite 10"
  by (simp add: fl_numeral)

lemma scenario_4:
  "calculate_fare_default TaxiCalculator (PFloat (fl (1/10))) (PStr econom) = Inr (NInt 50)"
  unfolding calculate_fare_default_def lit_0_1
  apply (subst fare_eval[OF _ _ rate_econom traffic_table(1) weather_table(1) overload_table(1)])
    apply (simp add: first_violation_None valid_simps)
   apply simp
  apply (simp add: int_to_double_def fl_numeral tm_ones prod_0_1 prod_10_1 del: dmul.simps)
  apply (simp add: py_max_def num_less_def)
  done

lemma scenario_5:
  "calculate_fare TaxiCalculator (PInt 10) (PStr econom) (PInt 5) (PInt 1) (PInt 1) = Inr (NFloat (Finite 2000))"
  apply (subst fare_eval[OF _ _ rate_econom traffic_table(4) weather_table(1) overload_table(1)])
    apply (simp add: first_violation_None valid_simps)
   apply simp
  apply (simp add: int_to_double_def fl_numeral fl_one)
  apply (simp add: py_max_def num_less_def)
  apply (simp add: rhe_def fl_numeral)
  done

lemma scenario_6:
  "calculate_fare TaxiCalculator (PInt 10) (PStr econom) (PInt 4) (PInt 3) (PInt 2) = Inr (NFloat (Finite (3795/2)))"
  apply (subst fare_eval[OF _ _ rate_econom traffic_table(3) weather_table(2) overload_table(2)])
    apply (simp add: first_violation_None valid_simps)
   apply simp
  apply (simp add: int_to_double_def fl_numeral prod_s6_1 prod_s6_2 prod_s6_3 del: dmul.simps)
  apply (simp add: py_max_def num_less_def)
  apply (simp add: rhe_def fl_1897_5)
  done

lemma scenario_7:
  "calculate_fare TaxiCalculator (PInt 1) (PStr comfort_plus) (PInt 5) (PInt 5) (PInt 5) = Inr (NFloat (Finite 1200))"
  apply (subst fare_eval[OF _ _ rate_comfort_plus traffic_table(4) weather_table(4) overload_table(3)])
    apply (simp add: first_violation_None valid_simps)
   apply simp
  apply (simp add: int_to_double_def fl_numeral fl_one)
  apply (simp add: py_max_def num_less_def)
  apply (simp add: rhe_def fl_numeral)
  done

lemma fare_157_3:
  "calculate_fare TaxiCalculator (PInt 1) (PStr econom) (PInt 2) (PInt 4) (PInt 2) = Inr (NFloat (Finite (2767250864786637 / 17592186044416)))"
  apply (subst fare_eval[OF _ _ rate_econom traffic_table(2) weather_table(3) overload_table(2)])
    apply (simp add: first_violation_None valid_simps)
   apply simp
  apply (simp add: int_to_double_def fl_numeral prod_c7_1 prod_c7_2 prod_c7_3 del: dmul.simps)
  apply (simp add: py_max_def num_less_def)
  apply (simp add: rhe_def fl_157_3)
  done

lemma fare_50_1:
  "calculate_fare_default TaxiCalculator (PFloat (Finite (513/1024))) (PStr econom)
     = Inr (NFloat (Finite (7050948166601933 / 140737488355328)))"
  unfolding calculate_fare_default_def
  apply (subst fare_eval[OF _ _ rate_econom traffic_table(1) weather_table(1) overload_table(1)])
    apply (simp add: first_violation_None valid_simps)
   apply simp
  apply (simp add: int_to_double_def fl_numeral tm_ones prod_c2_1 prod_c2_2 del: dmul.simps)
  apply (simp add: py_max_def num_less_def)
  apply (simp add: rhe_def fl_50_1)
  done

section \<open>The fare on valid inputs and the errors\<close>

lemma positive_valid: "positive d \<Longrightarrow> is_number d \<and> \<not> not_positive d"
  by (cases d rule: as_num.cases)
     (auto simp: positive_def is_number_def not_positive_def num_less_def num_le_def
       elim: dless.elims dle.elims split: if_splits)

lemma in_catalog_hashable: "in_catalog self t \<Longrightarrow> hashable t"
  by (cases t) (auto simp: in_catalog_def)

lemma in_range_valid: "in_range r \<Longrightarrow> rating_violation r = None"
  by (auto simp: in_range_def rating_violation_def is_integer_def split: option.splits)

lemma first_violation_kinds:
  "first_violation self d t r1 r2 r3 = Some k \<Longrightarrow> k = TypeKind \<or> k = RangeKind"
  by (auto simp: first_violation_def rating_violation_def split: if_splits option.splits)

lemma success_valid:
  assumes "calculate_fare self d t r1 r2 r3 = Inr f"
  shows "first_violation self d t r1 r2 r3 = None"
proof (cases "first_violation self d t r1 r2 r3")
  case (Some k)
  from calculate_fare_invalid[OF Some] assms show ?thesis by auto
qed simp

text \<open>
  Claim C1. The seven worked scenarios: 10 km give 1000.0 on econom, 1500.0 on comfort
  and 3000.0 on business; 0.1 km on econom gives the minimum fare (the integer 50, which
  is equal to 50.0); 10 km on econom gives 2000.0 with traffic rating 5 and 1897.5 with
  the ratings 4, 3 and 2; 1 km on comfort_plus with all ratings 5 gives 1200.0.
\<close>

theorem worked_scenarios:
  "calculate_fare_default TaxiCalculator (PInt 10) (PStr econom) = Inr (NFloat (Finite 1000))
   \<and> calculate_fare_default TaxiCalculator (PInt 10) (PStr comfort) = Inr (NFloat (Finite 1500))
   \<and> calculate_fare_default TaxiCalculator (PInt 10) (PStr business) = Inr (NFloat (Finite 3000))
   \<and> calculate_fare_default TaxiCalculator (PFloat (fl (1/10))) (PStr econom) = Inr (NInt 50)
   \<and> num_eq (NInt 50) (NFloat (Finite 50))
   \<and> calculate_fare TaxiCalculator (PInt 10) (PStr econom) (PInt 5) (PInt 1) (PInt 1)
       = Inr (NFloat (Finite 2000))
   \<and> calculate_fare TaxiCalculator (PInt 10) (PStr econom) (PInt 4) (PInt 3) (PInt 2)
       = Inr (NFloat (Finite (18975 / 10)))
   \<and> calculate_fare TaxiCalculator (PInt 1) (PStr comfort_plus) (PInt 5) (PInt 5) (PInt 5)
       = Inr (NFloat (Finite 1200))"
  using scenario_1 scenario_2 scenario_3 scenario_4 scenario_5 scenario_6 scenario_7
  by (simp add: num_eq_def)

text \<open>
  Claim C3. Whenever \<open>calculate_fare\<close> returns a fare for a distance greater than zero,
  the fare is at least the minimum fare 50.
\<close>

theorem fare_at_least_minimum:
  assumes "positive d" and "calculate_fare TaxiCalculator d t r1 r2 r3 = Inr f"
  shows "num_le (NInt (MIN_FARE TaxiCalculator)) f"
proof -
  have m: "MIN_FARE TaxiCalculator = 50" by (simp add: TaxiCalculator_def)
  from calculate_fare_valid[OF success_valid[OF assms(2)]] assms show ?thesis
    unfolding m by auto
qed

theorem fare_at_least_minimum_witness:
  "positive (PInt 10)
   \<and> calculate_fare TaxiCalculator (PInt 10) (PStr econom) (PInt 4) (PInt 3) (PInt 2)
       = Inr (NFloat (Finite (3795/2)))
   \<and> num_le (NInt (MIN_FARE TaxiCalculator)) (NFloat (Finite (3795/2)))"
  using fare_at_least_minimum[of "PInt 10" "PStr econom" "PInt 4" "PInt 3" "PInt 2"
      "NFloat (Finite (3795/2))"] scenario_6
  by (simp add: valid_simps)

text \<open>
  Claim C9, as stated, fails: the distance may be an integer so large that its base
  fare cannot be converted to a float, and the multiplication by the multiplier raises
  OverflowError after all validations have passed.
\<close>

theorem returns_normally_counterexample:
  "positive (PInt (2 ^ 1024)) \<and> in_catalog TaxiCalculator (PStr econom) \<and> in_range (PInt 1)
   \<and> calculate_fare TaxiCalculator (PInt (2 ^ 1024)) (PStr econom) (PInt 1) (PInt 1) (PInt 1)
       = Inl (OverflowError IntTooLarge)"
proof -
  have v: "first_violation TaxiCalculator (PInt (2 ^ 1024)) (PStr econom) (PInt 1) (PInt 1) (PInt 1)
      = None"
    by (simp add: first_violation_None valid_simps)
  have b: "base_fare_too_large TaxiCalculator (PInt (2 ^ 1024)) (PStr econom)"
    by (simp add: base_fare_too_large_def rate_econom)
  from calculate_fare_valid[OF v] b show ?thesis by (simp add: valid_simps)
qed

text \<open>
  Claim C9, amended. For a distance greater than zero, a tariff of the catalog and three
  integer ratings from 1 to 5, \<open>calculate_fare\<close> returns a fare, unless the distance is
  an integer whose base fare is \<open>2 ^ 1024 - 2 ^ 970\<close> or more: then it raises
  OverflowError. No validation error and no failing lookup is reached.
\<close>

theorem returns_normally:
  assumes "positive d" and "in_catalog TaxiCalculator t"
    and "in_range r1" and "in_range r2" and "in_range r3"
  shows "if base_fare_too_large TaxiCalculator d t
         then calculate_fare TaxiCalculator d t r1 r2 r3 = Inl (OverflowError IntTooLarge)
         else (\<exists>f. calculate_fare TaxiCalculator d t r1 r2 r3 = Inr f)"
proof -
  have "first_violation TaxiCalculator d t r1 r2 r3 = None"
    unfolding first_violation_None
    using positive_valid[OF assms(1)] in_catalog_hashable[OF assms(2)] assms(2)
      in_range_valid[OF assms(3)] in_range_valid[OF assms(4)] in_range_valid[OF assms(5)]
    by simp
  from calculate_fare_valid[OF this] show ?thesis by auto
qed

theorem returns_normally_witness:
  "positive (PFloat (Finite (513/1024))) \<and> in_catalog TaxiCalculator (PStr econom)
   \<and> in_range (PInt 1)
   \<and> \<not> base_fare_too_large TaxiCalculator (PFloat (Finite (513/1024))) (PStr econom)
   \<and> (\<exists>f. calculate_fare TaxiCalculator (PFloat (Finite (513/1024))) (PStr econom)
              (PInt 1) (PInt 1) (PInt 1) = Inr f)"
  using returns_normally[of "PFloat (Finite (513/1024))" "PStr econom" "PInt 1" "PInt 1" "PInt 1"]
  by (simp add: valid_simps base_fare_too_large_def)

text \<open>
  Claim C7, as stated, fails: 1 km on econom with the ratings 2, 4 and 2 costs 157.3,
  the float nearest to that decimal. One hundred times its value is not an integer, and
  neither is the float product \<open>100 * 157.3\<close>, which is 15730.000000000002.
\<close>

theorem two_decimals_counterexample:
  "calculate_fare TaxiCalculator (PInt 1) (PStr econom) (PInt 2) (PInt 4) (PInt 2)
     = Inr (NFloat (Finite (2767250864786637 / 17592186044416)))
   \<and> real_of_int \<lfloor>100 * (2767250864786637 / 17592186044416 :: real)\<rfloor>
       < 100 * (2767250864786637 / 17592186044416)
   \<and> dmul (Finite 100) (Finite (2767250864786637 / 17592186044416))
       = Finite (8647658952458241 / 549755813888)
   \<and> real_of_int \<lfloor>8647658952458241 / 549755813888 :: real\<rfloor>
       < 8647658952458241 / 549755813888"
  using fare_157_3 prod_c7_4 by simp

text \<open>
  Claim C7, amended. For a distance greater than zero, the fare that \<open>calculate_fare\<close>
  returns is the integer 50, or the float nearest to a decimal number with two digits
  after the point (an integer number of hundredths, at least 5000 of them), or the
  float infinity.
\<close>

theorem fare_two_decimals:
  assumes "positive d" and "calculate_fare TaxiCalculator d t r1 r2 r3 = Inr f"
  shows "f = NInt 50 \<or> f = NFloat PosInf
       \<or> (\<exists>k. 5000 \<le> k \<and> f = NFloat (fl (of_int k / 100)))"
  using calculate_fare_valid[OF success_valid[OF assms(2)]] assms by auto

theorem fare_two_decimals_witness:
  "positive (PInt 1)
   \<and> calculate_fare TaxiCalculator (PInt 1) (PStr econom) (PInt 2) (PInt 4) (PInt 2)
       = Inr (NFloat (Finite (2767250864786637 / 17592186044416)))
   \<and> (NFloat (Finite (2767250864786637 / 17592186044416)) = NInt 50
       \<or> NFloat (Finite (2767250864786637 / 17592186044416)) = NFloat PosInf
       \<or> (\<exists>k. 5000 \<le> k
             \<and> NFloat (Finite (2767250864786637 / 17592186044416))
                 = NFloat (fl (of_int k / 100))))"
  using fare_two_decimals[of "PInt 1" "PStr econom" "PInt 2" "PInt 4" "PInt 2"
      "NFloat (Finite (2767250864786637 / 17592186044416))"] fare_157_3
  by (simp add: valid_simps)

text \<open>
  Claim C4, as stated, fails: with the distance -5 and the traffic rating 3.5 a rating
  is not an integer, and the error raised is the range error of the distance.
\<close>

theorem error_kinds_counterexample:
  "calculate_fare TaxiCalculator (PInt (- 5)) (PStr econom) (PFloat (Finite (7/2))) (PInt 1)
       (PInt 1)
     = Inl (ValueError (DistanceNotPositive (PInt (- 5))))
   \<and> kind_of (ValueError (DistanceNotPositive (PInt (- 5)))) = RangeKind
   \<and> \<not> is_integer (PFloat (Finite (7/2)))"
  by (simp add: calculate_fare_unfold validate_distance_def num_le_def is_integer_def)

text \<open>
  Claim C4, amended. \<open>calculate_fare\<close> raises a TypeKind error exactly when the first
  violated check, in the order distance, tariff, traffic, weather and demand rating, is
  a type check (the distance is not an int or float, the tariff is unhashable, a rating
  is not an int); it raises a RangeKind error exactly when the first violated check is a
  range check (the distance is not greater than zero, the tariff is not a key of the
  catalog, an integer rating is outside 1 to 5). A float rating is a type violation
  whatever its value, so 3.0 is rejected. When no check is violated it returns a
  fare, unless the base fare of an integer distance is too large for a float: then, and
  only then, it raises OverflowError. It raises nothing else.
\<close>

theorem error_kinds:
  "((\<exists>e. calculate_fare TaxiCalculator d t r1 r2 r3 = Inl e \<and> kind_of e = TypeKind)
      \<longleftrightarrow> first_violation TaxiCalculator d t r1 r2 r3 = Some TypeKind)
   \<and> ((\<exists>e. calculate_fare TaxiCalculator d t r1 r2 r3 = Inl e \<and> kind_of e = RangeKind)
      \<longleftrightarrow> first_violation TaxiCalculator d t r1 r2 r3 = Some RangeKind)
   \<and> ((\<exists>e. calculate_fare TaxiCalculator d t r1 r2 r3 = Inl e
             \<and> kind_of e \<noteq> TypeKind \<and> kind_of e \<noteq> RangeKind)
      \<longleftrightarrow> calculate_fare TaxiCalculator d t r1 r2 r3 = Inl (OverflowError IntTooLarge))
   \<and> (calculate_fare TaxiCalculator d t r1 r2 r3 = Inl (OverflowError IntTooLarge)
      \<longleftrightarrow> first_violation TaxiCalculator d t r1 r2 r3 = None
          \<and> base_fare_too_large TaxiCalculator d t)
   \<and> ((\<exists>f. calculate_fare TaxiCalculator d t r1 r2 r3 = Inr f)
      \<longleftrightarrow> first_violation TaxiCalculator d t r1 r2 r3 = None
          \<and> \<not> base_fare_too_large TaxiCalculator d t)
   \<and> rating_violation (PFloat x) = Some TypeKind"
proof -
  have "rating_violation (PFloat x) = Some TypeKind"
    by (simp add: rating_violation_def is_integer_def)
  moreover have "first_violation TaxiCalculator d t r1 r2 r3 = None
      \<or> (\<exists>k. first_violation TaxiCalculator d t r1 r2 r3 = Some k)" by auto
  then have "((\<exists>e. calculate_fare TaxiCalculator d t r1 r2 r3 = Inl e \<and> kind_of e = TypeKind)
      \<longleftrightarrow> first_violation TaxiCalculator d t r1 r2 r3 = Some TypeKind)
   \<and> ((\<exists>e. calculate_fare TaxiCalculator d t r1 r2 r3 = Inl e \<and> kind_of e = RangeKind)
      \<longleftrightarrow> first_violation TaxiCalculator d t r1 r2 r3 = Some RangeKind)
   \<and> ((\<exists>e. calculate_fare TaxiCalculator d t r1 r2 r3 = Inl e
             \<and> kind_of e \<noteq> TypeKind \<and> kind_of e \<noteq> RangeKind)
      \<longleftrightarrow> calculate_fare TaxiCalculator d t r1 r2 r3 = Inl (OverflowError IntTooLarge))
   \<and> (calculate_fare TaxiCalculator d t r1 r2 r3 = Inl (OverflowError IntTooLarge)
      \<longleftrightarrow> first_violation TaxiCalculator d t r1 r2 r3 = None
          \<and> base_fare_too_large TaxiCalculator d t)
   \<and> ((\<exists>f. calculate_fare TaxiCalculator d t r1 r2 r3 = Inr f)
      \<longleftrightarrow> first_violation TaxiCalculator d t r1 r2 r3 = None
          \<and> \<not> base_fare_too_large TaxiCalculator d t)"
  proof
    assume None: "first_violation TaxiCalculator d t r1 r2 r3 = None"
    from calculate_fare_valid[OF None] None show ?thesis by auto
  next
    assume "\<exists>k. first_violation TaxiCalculator d t r1 r2 r3 = Some k"
    then obtain k where Some: "first_violation TaxiCalculator d t r1 r2 r3 = Some k" by blast
    from calculate_fare_invalid[OF Some] first_violation_kinds[OF Some] Some
    show ?thesis by auto
  qed
  ultimately show ?thesis by blast
qed

section \<open>Monotonicity in the ratings\<close>

lemma bind_assoc: "bind (bind m g) h = bind m (\<lambda>x. bind (g x) h)"
  by (cases m) auto

lemma traffic_get:
  assumes "as_int r = Some k" "1 \<le> k" "k \<le> 5"
  shows "getitem_int (TRAFFIC_MULTIPLIERS TaxiCalculator) r = Inr (fl (traffic_decimal k))"
    and "getitem_int (OVERLOAD_MULTIPLIERS TaxiCalculator) r = Inr (fl (traffic_decimal k))"
proof -
  from assms(2,3) have "k = 1 \<or> k = 2 \<or> k = 3 \<or> k = 4 \<or> k = 5" by arith
  then show "getitem_int (TRAFFIC_MULTIPLIERS TaxiCalculator) r = Inr (fl (traffic_decimal k))"
    and "getitem_int (OVERLOAD_MULTIPLIERS TaxiCalculator) r = Inr (fl (traffic_decimal k))"
    unfolding getitem_int_as_int[OF assms(1)]
    by (auto simp: TaxiCalculator_def traffic_decimal_def)
qed

lemma weather_get:
  assumes "as_int r = Some k" "1 \<le> k" "k \<le> 5"
  shows "getitem_int (WEATHER_MULTIPLIERS TaxiCalculator) r = Inr (fl (weather_decimal k))"
proof -
  from assms(2,3) have "k = 1 \<or> k = 2 \<or> k = 3 \<or> k = 4 \<or> k = 5" by arith
  then show ?thesis
    unfolding getitem_int_as_int[OF assms(1)]
    by (auto simp: TaxiCalculator_def weather_decimal_def)
qed

lemma traffic_decimal_mono:
  "1 \<le> k \<Longrightarrow> k \<le> k' \<Longrightarrow> k' \<le> 5 \<Longrightarrow>
     1 \<le> traffic_decimal k \<and> traffic_decimal k \<le> traffic_decimal k' \<and> traffic_decimal k' \<le> 2"
  by (auto simp: traffic_decimal_def)

lemma weather_decimal_mono:
  "1 \<le> k \<Longrightarrow> k \<le> k' \<Longrightarrow> k' \<le> 5 \<Longrightarrow>
     1 \<le> weather_decimal k \<and> weather_decimal k \<le> weather_decimal k' \<and> weather_decimal k' \<le> 2"
  by (auto simp: weather_decimal_def)

lemma literal_mono:
  assumes "1 \<le> p" "p \<le> q" "q \<le> 2"
  shows "\<exists>a b. fl p = Finite a \<and> fl q = Finite b \<and> 1 \<le> a \<and> a \<le> b \<and> b \<le> 2"
proof -
  from literal_12[of p] assms obtain a where a: "fl p = Finite a" "1 \<le> a" by auto
  from literal_12[of q] assms obtain b where b: "fl q = Finite b" "b \<le> 2" by auto
  have "dle (fl p) (fl q)" using assms by (intro fl_mono_nonneg) simp_all
  with a b show ?thesis by simp
qed

lemma total_multiplier_mono:
  assumes "1 \<le> a" "a \<le> a'" "a' \<le> 2" "1 \<le> w" "w \<le> w'" "w' \<le> 2" "1 \<le> c" "c \<le> c'" "c' \<le> 2"
  shows "\<exists>z z'. dmul (dmul (Finite a) (Finite w)) (Finite c) = Finite z
               \<and> dmul (dmul (Finite a') (Finite w')) (Finite c') = Finite z'
               \<and> 1 \<le> z \<and> z \<le> z'"
proof -
  have a2: "a \<le> 2" "1 \<le> a'" "w \<le> 2" "1 \<le> w'" "c \<le> 2" "1 \<le> c'" using assms by linarith+
  from total_multiplier_bounds[OF assms(1) a2(1) assms(4) a2(3) assms(7) a2(5)]
  obtain z where z: "dmul (dmul (Finite a) (Finite w)) (Finite c) = Finite z" "1 \<le> z" by blast
  from total_multiplier_bounds[OF a2(2) assms(3) a2(4) assms(6) a2(6) assms(9)]
  obtain z' where z': "dmul (dmul (Finite a') (Finite w')) (Finite c') = Finite z'" by blast
  have aw: "a * w \<le> a' * w'" using assms by (intro mult_mono) simp_all
  have "0 \<le> a * w" using assms by simp
  then have 1: "dle (fl (a * w)) (fl (a' * w'))" using aw by (rule fl_mono_nonneg)
  have "1 * 1 \<le> a * w" "a * w \<le> 2 * 2" using assms a2 by (intro mult_mono; simp)+
  then obtain y where y: "fl (a * w) = Finite y"
    using fl_between[of 1 "a * w" 4] fl_one fl_four by auto
  have "1 * 1 \<le> a' * w'" "a' * w' \<le> 2 * 2" using assms a2 by (intro mult_mono; simp)+
  then obtain y' where y': "fl (a' * w') = Finite y'"
    using fl_between[of 1 "a' * w'" 4] fl_one fl_four by auto
  have y0: "0 \<le> y" using fl_nonneg[OF \<open>0 \<le> a * w\<close>] y by simp
  from 1 y y' have yy: "y \<le> y'" by simp
  have "y * c \<le> y' * c'" using yy y0 assms by (intro mult_mono) simp_all
  moreover have "0 \<le> y * c" using y0 assms by simp
  ultimately have "dle (fl (y * c)) (fl (y' * c'))" by (intro fl_mono_nonneg)
  with z z' y y' show ?thesis by simp
qed

lemma finish_mono:
  assumes "is_double x" "is_double x'" "dle (Finite 0) x" "dle x x'"
  shows "\<exists>g g'. py_round (py_max (NFloat x) (NInt 50)) 2 = Inr g
               \<and> py_round (py_max (NFloat x') (NInt 50)) 2 = Inr g' \<and> num_le g g'"
proof -
  have x'0: "dle (Finite 0) x'" using assms(3,4) by (cases x; cases x') auto
  from finish_shape[OF assms(1)] assms(3) obtain g where
    g: "py_round (py_max (NFloat x) (NInt 50)) 2 = Inr g" by blast
  from finish_shape[OF assms(2)] x'0 obtain g' where
    g': "py_round (py_max (NFloat x') (NInt 50)) 2 = Inr g'" "num_le (NInt 50) g'"
    by (cases x') auto
  have "num_le g g'"
  proof (cases x)
    case (Finite a)
    show ?thesis
    proof (cases "a < 50")
      case True
      with Finite g have "g = NInt 50" by (simp add: py_max_def num_less_def)
      with g'(2) show ?thesis by simp
    next
      case False
      let ?qa = "real_of_int (rhe (a * 100)) / 100"
      from Finite assms(1) have ra: "fl a = Finite a" by (simp add: is_double_def)
      from Finite assms(3) have a0: "0 \<le> a" by simp
      from round2_finite[OF ra a0] obtain ya where ya: "fl ?qa = Finite ya" by blast
      from False Finite g ya have ga: "g = NFloat (Finite ya)"
        by (simp add: py_max_def num_less_def)
      show ?thesis
      proof (cases x')
        case b: (Finite b)
        let ?qb = "real_of_int (rhe (b * 100)) / 100"
        from b Finite assms(4) have ab: "a \<le> b" by simp
        from b assms(2) have rb: "fl b = Finite b" by (simp add: is_double_def)
        from round2_finite[OF rb] ab a0 obtain yb where yb: "fl ?qb = Finite yb" by auto
        from False ab b g' yb have gb: "g' = NFloat (Finite yb)"
          by (simp add: py_max_def num_less_def)
        have "rhe (a * 100) \<le> rhe (b * 100)" using ab by (intro rhe_mono) simp
        then have "?qa \<le> ?qb" by simp
        moreover have "0 \<le> ?qa" using a0 by (simp add: rhe_ge)
        ultimately have "dle (fl ?qa) (fl ?qb)" by (intro fl_mono_nonneg)
        with ya yb ga gb show ?thesis by (simp add: num_le_def)
      next
        case PosInf
        with g' have "g' = NFloat PosInf" by (simp add: py_max_def num_less_def)
        with ga show ?thesis by (simp add: num_le_def)
      qed (use Finite assms(4) in auto)
    qed
  next
    case PosInf
    with assms(4) have x': "x' = PosInf" by (cases x') auto
    from PosInf g have "g = NFloat PosInf" by (auto simp: py_max_def num_less_def)
    moreover from x' g' have "g' = NFloat PosInf" by (auto simp: py_max_def num_less_def)
    ultimately show ?thesis by (simp add: num_le_def)
  qed (use assms(3) in auto)
  with g g' show ?thesis by blast
qed

lemma base_fare_cases:
  assumes "as_num d = Some n" "positive d" "rate \<in> {100, 150, 200, 300}"
  shows "(\<exists>B. dle (Finite 0) B
            \<and> (\<forall>z. bind (num_mul n (NInt rate)) (\<lambda>b. num_mul b (NFloat (Finite z)))
                     = Inr (NFloat (dmul B (Finite z)))))
       \<or> (\<forall>z. bind (num_mul n (NInt rate)) (\<lambda>b. num_mul b (NFloat (Finite z)))
                = Inl (OverflowError IntTooLarge))"
proof (cases n)
  case (NInt m)
  with assms(1,2) have m0: "0 < m" by (simp add: positive_def num_less_def)
  have "0 \<le> m * rate" using m0 assms(3) by auto
  then have mr: "0 \<le> real_of_int (m * rate)" by (simp only: of_int_0_le_iff)
  from fl_pos_cases[OF mr] show ?thesis
  proof
    assume "fl (real_of_int (m * rate)) = PosInf \<and> 2 ^ 1024 - 2 ^ 970 \<le> real_of_int (m * rate)"
    then show ?thesis unfolding NInt by (simp add: int_to_double_def)
  next
    assume "\<exists>y. fl (real_of_int (m * rate)) = Finite y \<and> 0 \<le> y \<and> fl y = Finite y
                \<and> real_of_int (m * rate) < 2 ^ 1024 - 2 ^ 970"
    then obtain y where y: "fl (real_of_int (m * rate)) = Finite y" "0 \<le> y" by auto
    have "dle (Finite 0) (Finite y)" using y(2) by simp
    moreover have "\<forall>z. bind (num_mul n (NInt rate)) (\<lambda>b. num_mul b (NFloat (Finite z)))
                     = Inr (NFloat (dmul (Finite y) (Finite z)))"
      unfolding NInt using y(1) by (simp add: int_to_double_def)
    ultimately show ?thesis by blast
  qed
next
  case (NFloat xd)
  have r0: "0 < real_of_int rate" using assms(3) by auto
  from NFloat assms(1,2) have "dle (Finite 0) xd"
    by (cases xd) (auto simp: positive_def num_less_def)
  then have "dle (Finite 0) (dmul xd (Finite (of_int rate)))" using r0 by (rule dmul_nonneg)
  moreover have "\<forall>z. bind (num_mul n (NInt rate)) (\<lambda>b. num_mul b (NFloat (Finite z)))
                     = Inr (NFloat (dmul (dmul xd (Finite (of_int rate))) (Finite z)))"
    unfolding NFloat by (simp add: int_to_double_rate[OF assms(3)] del: dmul.simps)
  ultimately show ?thesis by blast
qed

lemma fare_mono_general:
  assumes pos: "positive d"
    and res: "calculate_fare TaxiCalculator d t r1 r2 r3 = Inr f"
    and k: "as_int r1 = Some k1" "as_int r2 = Some k2" "as_int r3 = Some k3"
    and k': "as_int r1' = Some k1'" "as_int r2' = Some k2'" "as_int r3' = Some k3'"
    and le: "k1 \<le> k1'" "k1' \<le> 5" "k2 \<le> k2'" "k2' \<le> 5" "k3 \<le> k3'" "k3' \<le> 5"
  shows "\<exists>f'. calculate_fare TaxiCalculator d t r1' r2' r3' = Inr f' \<and> num_le f f'"
proof -
  from success_valid[OF res] have v: "is_number d" "\<not> not_positive d" "hashable t"
    "in_catalog TaxiCalculator t" "rating_violation r1 = None" "rating_violation r2 = None"
    "rating_violation r3 = None"
    unfolding first_violation_None by simp_all
  from v(5-7) k have lo: "1 \<le> k1" "1 \<le> k2" "1 \<le> k3" "k1 \<le> 5" "k2 \<le> 5" "k3 \<le> 5"
    by (auto simp: rating_ok)
  have lo': "1 \<le> k1'" "1 \<le> k2'" "1 \<le> k3'" using lo le by linarith+
  have v': "rating_violation r1' = None" "rating_violation r2' = None"
    "rating_violation r3' = None"
    using k' lo' le by (auto simp: rating_ok)
  have valid: "first_violation TaxiCalculator d t r1 r2 r3 = None"
    using success_valid[OF res] .
  have valid': "first_violation TaxiCalculator d t r1' r2' r3' = None"
    unfolding first_violation_None using v v' by simp
  from rate_lookup[OF v(3,4)] obtain rate where
    rate: "getitem_str (TARIFF_RATES TaxiCalculator) t = Inr rate" "rate \<in> {100, 150, 200, 300}"
    by blast
  from v(1) obtain n where n: "as_num d = Some n" by (auto simp: is_number_def)
  from literal_mono[OF traffic_decimal_mono[OF lo(1) le(1,2), THEN conjunct1]
      traffic_decimal_mono[OF lo(1) le(1,2), THEN conjunct2, THEN conjunct1]
      traffic_decimal_mono[OF lo(1) le(1,2), THEN conjunct2, THEN conjunct2]]
  obtain a a' where a: "fl (traffic_decimal k1) = Finite a" "fl (traffic_decimal k1') = Finite a'"
    "1 \<le> a" "a \<le> a'" "a' \<le> 2" by blast
  from literal_mono[OF weather_decimal_mono[OF lo(2) le(3,4), THEN conjunct1]
      weather_decimal_mono[OF lo(2) le(3,4), THEN conjunct2, THEN conjunct1]
      weather_decimal_mono[OF lo(2) le(3,4), THEN conjunct2, THEN conjunct2]]
  obtain w w' where w: "fl (weather_decimal k2) = Finite w" "fl (weather_decimal k2') = Finite w'"
    "1 \<le> w" "w \<le> w'" "w' \<le> 2" by blast
  from literal_mono[OF traffic_decimal_mono[OF lo(3) le(5,6), THEN conjunct1]
      traffic_decimal_mono[OF lo(3) le(5,6), THEN conjunct2, THEN conjunct1]
      traffic_decimal_mono[OF lo(3) le(5,6), THEN conjunct2, THEN conjunct2]]
  obtain c c' where c: "fl (traffic_decimal k3) = Finite c" "fl (traffic_decimal k3') = Finite c'"
    "1 \<le> c" "c \<le> c'" "c' \<le> 2" by blast
  from total_multiplier_mono[OF a(3-5) w(3-5) c(3-5)] obtain z z' where
    z: "dmul (dmul (Finite a) (Finite w)) (Finite c) = Finite z"
       "dmul (dmul (Finite a') (Finite w')) (Finite c') = Finite z'" "1 \<le> z" "z \<le> z'" by blast
  have z0: "0 < z" using z(3) by linarith
  have min: "MIN_FARE TaxiCalculator = 50" by (simp add: TaxiCalculator_def)
  have cf: "calculate_fare TaxiCalculator d t r1 r2 r3 =
      bind (bind (num_mul n (NInt rate)) (\<lambda>b. num_mul b (NFloat (Finite z))))
        (\<lambda>f. py_round (py_max f (NInt 50)) 2)"
    unfolding calculate_fare_valid_eq[OF valid] bind_assoc
    using compute_fare_unfold[OF n rate(1) traffic_get(1)[OF k(1) lo(1,4)]
        weather_get[OF k(2) lo(2,5)] traffic_get(2)[OF k(3) lo(3,6)]]
    by (simp add: a w c z min del: dmul.simps)
  have cf': "calculate_fare TaxiCalculator d t r1' r2' r3' =
      bind (bind (num_mul n (NInt rate)) (\<lambda>b. num_mul b (NFloat (Finite z'))))
        (\<lambda>f. py_round (py_max f (NInt 50)) 2)"
    unfolding calculate_fare_valid_eq[OF valid'] bind_assoc
    using compute_fare_unfold[OF n rate(1) traffic_get(1)[OF k'(1) lo'(1) le(2)]
        weather_get[OF k'(2) lo'(2) le(4)] traffic_get(2)[OF k'(3) lo'(3) le(6)]]
    by (simp add: a w c z min del: dmul.simps)
  from base_fare_cases[OF n pos rate(2)] show ?thesis
  proof
    assume "\<exists>B. dle (Finite 0) B
            \<and> (\<forall>z. bind (num_mul n (NInt rate)) (\<lambda>b. num_mul b (NFloat (Finite z)))
                     = Inr (NFloat (dmul B (Finite z))))"
    then obtain B where B: "dle (Finite 0) B"
      "\<And>z. bind (num_mul n (NInt rate)) (\<lambda>b. num_mul b (NFloat (Finite z)))
                     = Inr (NFloat (dmul B (Finite z)))" by blast
    have "dle (Finite 0) (dmul B (Finite z))" using B(1) z0 by (rule dmul_nonneg)
    moreover have "dle (dmul B (Finite z)) (dmul B (Finite z'))"
      using B(1) z0 z(4) by (rule dmul_mono_right)
    ultimately obtain g g' where
      "py_round (py_max (NFloat (dmul B (Finite z))) (NInt 50)) 2 = Inr g"
      "py_round (py_max (NFloat (dmul B (Finite z'))) (NInt 50)) 2 = Inr g'" "num_le g g'"
      using finish_mono[OF is_double_dmul is_double_dmul] by blast
    with res show ?thesis unfolding cf cf' B(2) by (simp del: dmul.simps)
  next
    assume "\<forall>z. bind (num_mul n (NInt rate)) (\<lambda>b. num_mul b (NFloat (Finite z)))
                = Inl (OverflowError IntTooLarge)"
    with res show ?thesis unfolding cf by simp
  qed
qed

text \<open>
  Claim C6. For a distance greater than zero on which \<open>calculate_fare\<close> returns a fare,
  raising any single one of the three ratings by one step, the distance, the tariff and
  the other two ratings being the same, gives a fare that is not smaller.
\<close>

theorem fare_monotone_in_ratings:
  assumes "positive d" and "calculate_fare TaxiCalculator d t r1 r2 r3 = Inr f"
    and "as_int r1 = Some a" and "as_int r2 = Some b" and "as_int r3 = Some c"
  shows "(a < 5 \<longrightarrow>
            (\<exists>f'. calculate_fare TaxiCalculator d t (PInt (a + 1)) r2 r3 = Inr f' \<and> num_le f f'))
       \<and> (b < 5 \<longrightarrow>
            (\<exists>f'. calculate_fare TaxiCalculator d t r1 (PInt (b + 1)) r3 = Inr f' \<and> num_le f f'))
       \<and> (c < 5 \<longrightarrow>
            (\<exists>f'. calculate_fare TaxiCalculator d t r1 r2 (PInt (c + 1)) = Inr f' \<and> num_le f f'))"
proof -
  from success_valid[OF assms(2)] assms(3-5) have le: "a \<le> 5" "b \<le> 5" "c \<le> 5"
    unfolding first_violation_None by (auto simp: rating_ok)
  have 1: "\<exists>f'. calculate_fare TaxiCalculator d t (PInt (a + 1)) r2 r3 = Inr f' \<and> num_le f f'"
    if "a < 5"
  proof -
    have k': "as_int (PInt (a + 1)) = Some (a + 1)" by simp
    show ?thesis
      by (rule fare_mono_general[OF assms(1,2) assms(3,4,5) k' assms(4,5)])
         (use that le in simp_all)
  qed
  have 2: "\<exists>f'. calculate_fare TaxiCalculator d t r1 (PInt (b + 1)) r3 = Inr f' \<and> num_le f f'"
    if "b < 5"
  proof -
    have k': "as_int (PInt (b + 1)) = Some (b + 1)" by simp
    show ?thesis
      by (rule fare_mono_general[OF assms(1,2) assms(3,4,5) assms(3) k' assms(5)])
         (use that le in simp_all)
  qed
  have 3: "\<exists>f'. calculate_fare TaxiCalculator d t r1 r2 (PInt (c + 1)) = Inr f' \<and> num_le f f'"
    if "c < 5"
  proof -
    have k': "as_int (PInt (c + 1)) = Some (c + 1)" by simp
    show ?thesis
      by (rule fare_mono_general[OF assms(1,2) assms(3,4,5) assms(3,4) k'])
         (use that le in simp_all)
  qed
  from 1 2 3 show ?thesis by blast
qed

theorem fare_monotone_in_ratings_witness:
  "positive (PInt 10)
   \<and> calculate_fare TaxiCalculator (PInt 10) (PStr econom) (PInt 4) (PInt 3) (PInt 2)
       = Inr (NFloat (Finite (3795/2)))
   \<and> (\<exists>f'. calculate_fare TaxiCalculator (PInt 10) (PStr econom) (PInt 5) (PInt 3) (PInt 2)
              = Inr f' \<and> num_le (NFloat (Finite (3795/2))) f')
   \<and> (\<exists>f'. calculate_fare TaxiCalculator (PInt 10) (PStr econom) (PInt 4) (PInt 4) (PInt 2)
              = Inr f' \<and> num_le (NFloat (Finite (3795/2))) f')
   \<and> (\<exists>f'. calculate_fare TaxiCalculator (PInt 10) (PStr econom) (PInt 4) (PInt 3) (PInt 3)
              = Inr f' \<and> num_le (NFloat (Finite (3795/2))) f')"
  using fare_monotone_in_ratings[of "PInt 10" "PStr econom" "PInt 4" "PInt 3" "PInt 2"
      "NFloat (Finite (3795/2))" 4 3 2] scenario_6
  by (simp add: valid_simps)

section \<open>The fare with the default ratings\<close>

lemma dmul_one: "is_double x \<Longrightarrow> dmul x (Finite 1) = x"
  by (cases x) (auto simp: is_double_def)

lemma int_to_double_double: "int_to_double q = Inr x \<Longrightarrow> is_double x"
  by (cases "fl (real_of_int q)") (auto simp: int_to_double_def is_double_def intro: fl_idem)

lemma num_mul_one:
  assumes "num_mul n (NInt rate) = Inr p"
  shows "num_mul p (NFloat (Finite 1)) = bind (to_float p) (\<lambda>x. Inr (NFloat x))"
proof (cases p)
  case (NInt q)
  show ?thesis
  proof (cases "int_to_double q")
    case (Inl e) then show ?thesis unfolding NInt by simp
  next
    case (Inr x)
    from dmul_one[OF int_to_double_double[OF Inr]] Inr show ?thesis
      unfolding NInt by (simp del: dmul.simps)
  qed
next
  case (NFloat x)
  have "is_double x"
  proof (cases n)
    case (NInt m)
    with assms NFloat show ?thesis by simp
  next
    case xd: (NFloat xd)
    show ?thesis
    proof (cases "int_to_double rate")
      case (Inl e)
      with assms xd show ?thesis by simp
    next
      case (Inr y)
      with assms xd NFloat have "x = dmul xd y" by (simp del: dmul.simps)
      then show ?thesis by (simp add: is_double_dmul del: dmul.simps)
    qed
  qed
  from dmul_one[OF this] show ?thesis unfolding NFloat by (simp del: dmul.simps)
qed

text \<open>
  Claim C2, as stated, fails: for the distance 0.5009765625 on econom the product is
  50.09765625, also its maximum with 50, and the fare returned is 50.1.
\<close>

theorem default_fare_counterexample:
  "positive (PFloat (Finite (513/1024)))
   \<and> calculate_fare_default TaxiCalculator (PFloat (Finite (513/1024))) (PStr econom)
       = Inr (NFloat (Finite (7050948166601933 / 140737488355328)))
   \<and> num_mul (NFloat (Finite (513/1024))) (NInt 100) = Inr (NFloat (Finite (12825/256)))
   \<and> py_max (NFloat (Finite (12825/256))) (NInt 50) = NFloat (Finite (12825/256))
   \<and> \<not> num_eq (NFloat (Finite (7050948166601933 / 140737488355328)))
             (NFloat (Finite (12825/256)))"
  using fare_50_1
  by (simp add: valid_simps int_to_double_def fl_numeral prod_c2_1 py_max_def num_less_def
      num_eq_def del: dmul.simps)

text \<open>
  Claim C2, amended. For a distance greater than zero, a tariff of the catalog and the
  three ratings left at 1, \<open>calculate_fare\<close> returns the maximum of the product of the
  distance and the rate (taken as a float) and 50, rounded to two decimals; it raises
  OverflowError when the product is an integer too large for a float.
\<close>

theorem default_fare:
  assumes "as_num d = Some n" and "positive d"
    and "getitem_str (TARIFF_RATES TaxiCalculator) t = Inr rate"
  shows "calculate_fare_default TaxiCalculator d t =
     bind (num_mul n (NInt rate)) (\<lambda>p.
     bind (to_float p) (\<lambda>x.
     py_round (py_max (NFloat x) (NInt (MIN_FARE TaxiCalculator))) 2))"
proof -
  have h: "hashable t \<and> in_catalog TaxiCalculator t"
  proof (cases t)
    case (PStr s)
    with assms(3) have "map_of (TARIFF_RATES TaxiCalculator) s = Some rate"
      by (simp add: getitem_str_def split: option.splits)
    then have "s \<in> set (map fst (TARIFF_RATES TaxiCalculator))"
      by (metis map_of_eq_None_iff option.distinct(1) set_map)
    with PStr show ?thesis by (simp add: in_catalog_def)
  qed (use assms(3) in \<open>simp_all add: getitem_str_def\<close>)
  have valid: "first_violation TaxiCalculator d t (PInt 1) (PInt 1) (PInt 1) = None"
    unfolding first_violation_None using positive_valid[OF assms(2)] h
    by (simp add: valid_simps)
  have min: "MIN_FARE TaxiCalculator = 50" by (simp add: TaxiCalculator_def)
  have "bind (num_mul p (NFloat (Finite 1))) (\<lambda>f. py_round (py_max f (NInt 50)) 2)
      = bind (to_float p) (\<lambda>x. py_round (py_max (NFloat x) (NInt 50)) 2)"
    if "num_mul n (NInt rate) = Inr p" for p
    unfolding num_mul_one[OF that] bind_assoc by simp
  then have "bind (num_mul n (NInt rate)) (\<lambda>p.
       bind (num_mul p (NFloat (Finite 1))) (\<lambda>f. py_round (py_max f (NInt 50)) 2))
     = bind (num_mul n (NInt rate)) (\<lambda>p.
       bind (to_float p) (\<lambda>x. py_round (py_max (NFloat x) (NInt 50)) 2))"
    by (cases "num_mul n (NInt rate)") auto
  then show ?thesis
    unfolding calculate_fare_default_def min
      fare_eval[OF valid assms(1,3) traffic_table(1) weather_table(1) overload_table(1)] tm_ones .
qed

theorem default_fare_witness:
  "as_num (PFloat (Finite (513/1024))) = Some (NFloat (Finite (513/1024)))
   \<and> positive (PFloat (Finite (513/1024)))
   \<and> getitem_str (TARIFF_RATES TaxiCalculator) (PStr econom) = Inr 100
   \<and> calculate_fare_default TaxiCalculator (PFloat (Finite (513/1024))) (PStr econom) =
       bind (num_mul (NFloat (Finite (513/1024))) (NInt 100)) (\<lambda>p.
       bind (to_float p) (\<lambda>x.
       py_round (py_max (NFloat x) (NInt (MIN_FARE TaxiCalculator))) 2))"
  using default_fare[of "PFloat (Finite (513/1024))" "NFloat (Finite (513/1024))" "PStr econom" 100]
    rate_econom
  by (simp add: valid_simps del: num_mul.simps)

section \<open>The order of the validations\<close>

lemma validate_distance_eq:
  "validate_distance d =
     (if \<not> is_number d then Inl (TypeError (DistanceNotNumber (type_of d)))
      else if not_positive d then Inl (ValueError (DistanceNotPositive d))
      else Inr ())"
  by (auto simp: validate_distance_def is_number_def not_positive_def split: option.splits)

lemma validate_tariff_eq:
  "validate_tariff self t =
     (if \<not> hashable t then Inl (TypeError (Unhashable (type_of t)))
      else if \<not> in_catalog self t
        then Inl (ValueError (UnsupportedTariff t (map fst (TARIFF_RATES self))))
      else Inr ())"
  by (cases t) (auto simp: validate_tariff_def contains_str_def in_catalog_def)

lemma validate_rating_eq:
  "validate_rating r l =
     (if \<not> is_integer r then Inl (TypeError (RatingNotInteger (type_of r)))
      else if \<not> in_range r then Inl (ValueError (RatingOutOfRange l r))
      else Inr ())"
  by (auto simp: validate_rating_def is_integer_def in_range_def split: option.splits)

lemma in_range_integer: "in_range r \<Longrightarrow> is_integer r"
  by (auto simp: in_range_def is_integer_def split: option.splits)

lemma not_positive_number: "not_positive d \<Longrightarrow> is_number d"
  by (auto simp: not_positive_def is_number_def split: option.splits)

text \<open>
  Claim C5. \<open>calculate_fare\<close> checks the distance, the tariff, the traffic rating, the
  weather rating and the demand rating, in this order, and raises the error of the first
  constraint that the input violates, whatever the later arguments are: a distance that
  is not a number, a distance not greater than zero, an unhashable tariff, a tariff
  outside the catalog, then for each rating in turn a rating that is not an integer and
  an integer outside 1 to 5. One error is raised, never several, and the fare is
  computed only when no constraint is violated.
\<close>

theorem validation_order:
  "(\<not> is_number d \<longrightarrow>
      calculate_fare self d t r1 r2 r3 = Inl (TypeError (DistanceNotNumber (type_of d))))
   \<and> (not_positive d \<longrightarrow>
      calculate_fare self d t r1 r2 r3 = Inl (ValueError (DistanceNotPositive d)))
   \<and> (is_number d \<and> \<not> not_positive d \<and> \<not> hashable t \<longrightarrow>
      calculate_fare self d t r1 r2 r3 = Inl (TypeError (Unhashable (type_of t))))
   \<and> (is_number d \<and> \<not> not_positive d \<and> hashable t \<and> \<not> in_catalog self t \<longrightarrow>
      calculate_fare self d t r1 r2 r3
        = Inl (ValueError (UnsupportedTariff t (map fst (TARIFF_RATES self)))))
   \<and> (is_number d \<and> \<not> not_positive d \<and> hashable t \<and> in_catalog self t
       \<and> \<not> is_integer r1 \<longrightarrow>
      calculate_fare self d t r1 r2 r3 = Inl (TypeError (RatingNotInteger (type_of r1))))
   \<and> (is_number d \<and> \<not> not_positive d \<and> hashable t \<and> in_catalog self t
       \<and> is_integer r1 \<and> \<not> in_range r1 \<longrightarrow>
      calculate_fare self d t r1 r2 r3 = Inl (ValueError (RatingOutOfRange label_traffic r1)))
   \<and> (is_number d \<and> \<not> not_positive d \<and> hashable t \<and> in_catalog self t
       \<and> in_range r1 \<and> \<not> is_integer r2 \<longrightarrow>
      calculate_fare self d t r1 r2 r3 = Inl (TypeError (RatingNotInteger (type_of r2))))
   \<and> (is_number d \<and> \<not> not_positive d \<and> hashable t \<and> in_catalog self t
       \<and> in_range r1 \<and> is_integer r2 \<and> \<not> in_range r2 \<longrightarrow>
      calculate_fare self d t r1 r2 r3 = Inl (ValueError (RatingOutOfRange label_weather r2)))
   \<and> (is_number d \<and> \<not> not_positive d \<and> hashable t \<and> in_catalog self t
       \<and> in_range r1 \<and> in_range r2 \<and> \<not> is_integer r3 \<longrightarrow>
      calculate_fare self d t r1 r2 r3 = Inl (TypeError (RatingNotInteger (type_of r3))))
   \<and> (is_number d \<and> \<not> not_positive d \<and> hashable t \<and> in_catalog self t
       \<and> in_range r1 \<and> in_range r2 \<and> is_integer r3 \<and> \<not> in_range r3 \<longrightarrow>
      calculate_fare self d t r1 r2 r3 = Inl (ValueError (RatingOutOfRange label_overload r3)))
   \<and> (is_number d \<and> \<not> not_positive d \<and> hashable t \<and> in_catalog self t
       \<and> in_range r1 \<and> in_range r2 \<and> in_range r3 \<longrightarrow>
      calculate_fare self d t r1 r2 r3 = compute_fare self d t r1 r2 r3)"
  using in_range_integer[of r1] in_range_integer[of r2] in_range_integer[of r3]
    not_positive_number[of d]
  by (simp add: calculate_fare_unfold validate_distance_eq validate_tariff_eq validate_rating_eq)

lemma cond_simps:
  "is_number PNone = False" "is_number (PInt n)" "not_positive (PInt n) \<longleftrightarrow> n \<le> 0"
  "hashable (PList xs) = False" "hashable (PStr s)"
  "in_catalog TaxiCalculator (PStr econom)"
  "is_integer (PFloat x) = False" "is_integer PNone = False" "is_integer (PInt k)"
  "in_range (PInt k) \<longleftrightarrow> 1 \<le> k \<and> k \<le> 5"
  "map fst (TARIFF_RATES TaxiCalculator) = [econom, comfort, comfort_plus, business]"
  by (auto simp: is_number_def not_positive_def num_le_def in_catalog_def is_integer_def
      in_range_def TaxiCalculator_def)

lemma premium_not_in_catalog:
  "\<not> in_catalog TaxiCalculator (PStr [1087, 1088, 1077, 1084, 1080, 1091, 1084])"
  by (simp add: in_catalog_def TaxiCalculator_def econom_def comfort_def comfort_plus_def
      business_def)

theorem validation_order_witness:
  "calculate_fare TaxiCalculator PNone (PStr [1087, 1088, 1077, 1084, 1080, 1091, 1084])
       (PFloat (Finite (7/2))) (PInt 0) (PInt 9)
     = Inl (TypeError (DistanceNotNumber NoneType))
   \<and> calculate_fare TaxiCalculator (PInt (- 5)) (PList [])
       (PFloat (Finite (7/2))) (PInt 0) (PInt 9)
     = Inl (ValueError (DistanceNotPositive (PInt (- 5))))
   \<and> calculate_fare TaxiCalculator (PInt (2 ^ 1024)) (PList [])
       (PFloat (Finite (7/2))) (PInt 0) (PInt 9)
     = Inl (TypeError (Unhashable ListT))
   \<and> calculate_fare TaxiCalculator (PInt (2 ^ 1024))
       (PStr [1087, 1088, 1077, 1084, 1080, 1091, 1084]) (PFloat (Finite (7/2))) (PInt 0) (PInt 9)
     = Inl (ValueError (UnsupportedTariff (PStr [1087, 1088, 1077, 1084, 1080, 1091, 1084])
              [econom, comfort, comfort_plus, business]))
   \<and> calculate_fare TaxiCalculator (PInt (2 ^ 1024)) (PStr econom)
       (PFloat (Finite (7/2))) (PInt 0) (PInt 9)
     = Inl (TypeError (RatingNotInteger FloatT))
   \<and> calculate_fare TaxiCalculator (PInt (2 ^ 1024)) (PStr econom)
       (PInt 0) (PFloat (Finite (7/2))) (PInt 9)
     = Inl (ValueError (RatingOutOfRange label_traffic (PInt 0)))
   \<and> calculate_fare TaxiCalculator (PInt (2 ^ 1024)) (PStr econom)
       (PInt 1) (PFloat (Finite (7/2))) (PInt 9)
     = Inl (TypeError (RatingNotInteger FloatT))
   \<and> calculate_fare TaxiCalculator (PInt (2 ^ 1024)) (PStr econom) (PInt 1) (PInt 6) PNone
     = Inl (ValueError (RatingOutOfRange label_weather (PInt 6)))
   \<and> calculate_fare TaxiCalculator (PInt (2 ^ 1024)) (PStr econom) (PInt 1) (PInt 1) PNone
     = Inl (TypeError (RatingNotInteger NoneType))
   \<and> calculate_fare TaxiCalculator (PInt (2 ^ 1024)) (PStr econom) (PInt 1) (PInt 1) (PInt 9)
     = Inl (ValueError (RatingOutOfRange label_overload (PInt 9)))
   \<and> calculate_fare TaxiCalculator (PInt 10) (PStr econom) (PInt 1) (PInt 1) (PInt 1)
     = compute_fare TaxiCalculator (PInt 10) (PStr econom) (PInt 1) (PInt 1) (PInt 1)"
proof -
  note s = cond_simps premium_not_in_catalog
  have 1: "calculate_fare TaxiCalculator PNone (PStr [1087, 1088, 1077, 1084, 1080, 1091, 1084])
       (PFloat (Finite (7/2))) (PInt 0) (PInt 9)
     = Inl (TypeError (DistanceNotNumber NoneType))"
    using validation_order[of PNone TaxiCalculator
        "PStr [1087, 1088, 1077, 1084, 1080, 1091, 1084]" "PFloat (Finite (7/2))" "PInt 0" "PInt 9"]
    by (simp add: s)
  have 2: "calculate_fare TaxiCalculator (PInt (- 5)) (PList [])
       (PFloat (Finite (7/2))) (PInt 0) (PInt 9)
     = Inl (ValueError (DistanceNotPositive (PInt (- 5))))"
    using validation_order[of "PInt (- 5)" TaxiCalculator "PList []" "PFloat (Finite (7/2))"
        "PInt 0" "PInt 9"]
    by (simp add: s)
  have 3: "calculate_fare TaxiCalculator (PInt (2 ^ 1024)) (PList [])
       (PFloat (Finite (7/2))) (PInt 0) (PInt 9)
     = Inl (TypeError (Unhashable ListT))"
    using validation_order[of "PInt (2 ^ 1024)" TaxiCalculator "PList []" "PFloat (Finite (7/2))"
        "PInt 0" "PInt 9"]
    by (simp add: s)
  have 4: "calculate_fare TaxiCalculator (PInt (2 ^ 1024))
       (PStr [1087, 1088, 1077, 1084, 1080, 1091, 1084]) (PFloat (Finite (7/2))) (PInt 0) (PInt 9)
     = Inl (ValueError (UnsupportedTariff (PStr [1087, 1088, 1077, 1084, 1080, 1091, 1084])
              [econom, comfort, comfort_plus, business]))"
    using validation_order[of "PInt (2 ^ 1024)" TaxiCalculator
        "PStr [1087, 1088, 1077, 1084, 1080, 1091, 1084]" "PFloat (Finite (7/2))" "PInt 0" "PInt 9"]
    by (simp add: s)
  have 5: "calculate_fare TaxiCalculator (PInt (2 ^ 1024)) (PStr econom)
       (PFloat (Finite (7/2))) (PInt 0) (PInt 9)
     = Inl (TypeError (RatingNotInteger FloatT))"
    using validation_order[of "PInt (2 ^ 1024)" TaxiCalculator "PStr econom"
        "PFloat (Finite (7/2))" "PInt 0" "PInt 9"]
    by (simp add: s)
  have 6: "calculate_fare TaxiCalculator (PInt (2 ^ 1024)) (PStr econom)
       (PInt 0) (PFloat (Finite (7/2))) (PInt 9)
     = Inl (ValueError (RatingOutOfRange label_traffic (PInt 0)))"
    using validation_order[of "PInt (2 ^ 1024)" TaxiCalculator "PStr econom"
        "PInt 0" "PFloat (Finite (7/2))" "PInt 9"]
    by (simp add: s)
  have 7: "calculate_fare TaxiCalculator (PInt (2 ^ 1024)) (PStr econom)
       (PInt 1) (PFloat (Finite (7/2))) (PInt 9)
     = Inl (TypeError (RatingNotInteger FloatT))"
    using validation_order[of "PInt (2 ^ 1024)" TaxiCalculator "PStr econom"
        "PInt 1" "PFloat (Finite (7/2))" "PInt 9"]
    by (simp add: s)
  have 8: "calculate_fare TaxiCalculator (PInt (2 ^ 1024)) (PStr econom) (PInt 1) (PInt 6) PNone
     = Inl (ValueError (RatingOutOfRange label_weather (PInt 6)))"
    using validation_order[of "PInt (2 ^ 1024)" TaxiCalculator "PStr econom"
        "PInt 1" "PInt 6" PNone]
    by (simp add: s)
  have 9: "calculate_fare TaxiCalculator (PInt (2 ^ 1024)) (PStr econom) (PInt 1) (PInt 1) PNone
     = Inl (TypeError (RatingNotInteger NoneType))"
    using validation_order[of "PInt (2 ^ 1024)" TaxiCalculator "PStr econom"
        "PInt 1" "PInt 1" PNone]
    by (simp add: s)
  have 10: "calculate_fare TaxiCalculator (PInt (2 ^ 1024)) (PStr econom) (PInt 1) (PInt 1) (PInt 9)
     = Inl (ValueError (RatingOutOfRange label_overload (PInt 9)))"
    using validation_order[of "PInt (2 ^ 1024)" TaxiCalculator "PStr econom"
        "PInt 1" "PInt 1" "PInt 9"]
    by (simp add: s)
  have 11: "calculate_fare TaxiCalculator (PInt 10) (PStr econom) (PInt 1) (PInt 1) (PInt 1)
     = compute_fare TaxiCalculator (PInt 10) (PStr econom) (PInt 1) (PInt 1) (PInt 1)"
    using validation_order[of "PInt 10" TaxiCalculator "PStr econom" "PInt 1" "PInt 1" "PInt 1"]
    by (simp add: s)
  from 1 2 3 4 5 6 7 8 9 10 11 show ?thesis by (intro conjI)
qed

section \<open>The tariff information\<close>





end
